theory Spec2Isabelle
  imports Complex_Main
begin

section \<open>Python values and exceptions\<close>

text \<open>
  The scanning package is Python 3. Its numbers are modelled in the reals: a position, a
  step size, a tolerance and a wall-clock reading are \<open>real\<close> (the rounding of IEEE
  doubles is not modelled), a count is \<open>int\<close>. An exception that leaves a method is the
  \<open>Inl\<close> of a sum; the constructors below are the exception classes the modelled code can
  raise, with the message where the source gives one.
\<close>

datatype error =
    IndexError
  | ZeroDivisionError
  | TypeError
  | AttributeError
  | RuntimeError
  | KeyError string
  | ValueError string
  | Exception string

text \<open>Reading an attribute that no statement has assigned raises an \<open>AttributeError\<close>.\<close>

definition attribute :: "'a option \<Rightarrow> error + 'a" where
  "attribute a = (case a of None \<Rightarrow> Inl AttributeError | Some v \<Rightarrow> Inr v)"

text \<open>
  \<open>convert_to_list(value)\<close> of pyscan/utils.py: a value that is neither \<open>None\<close> nor a list is wrapped into a
  one-element list; \<open>None\<close> and a list are returned as they are.
\<close>

datatype 'a py_arg = NoneArg | Scalar 'a | ListArg "'a list"

fun convert_to_list :: "'a py_arg \<Rightarrow> 'a list option" where
  "convert_to_list NoneArg = None"
| "convert_to_list (Scalar value) = Some [value]"
| "convert_to_list (ListArg values) = Some values"

section \<open>The beam-synchronous reader (pyscan/dal/bsread\_dal.py)\<close>

text \<open>
  A received message carries \<open>data.global_timestamp["sec"]\<close>, \<open>data.global_timestamp["ns"]\<close>
  and the dictionary \<open>data.data\<close> from channel name to value.
\<close>

record message =
  sec :: int
  ns :: int
  data :: "string \<rightharpoonup> real"

text \<open>
  \<open>int(x)\<close> on a float truncates towards zero, and \<open>math.modf(x)[0]\<close> is the fractional
  part left by that truncation (it has the sign of \<open>x\<close>).
\<close>

definition py_int :: "real \<Rightarrow> int" where
  "py_int x = (if 0 \<le> x then \<lfloor>x\<rfloor> else \<lceil>x\<rceil>)"

definition modf_frac :: "real \<Rightarrow> real" where
  "modf_frac x = x - of_int (py_int x)"

definition current_epoch :: "real \<Rightarrow> int" where
  "current_epoch timestamp = py_int timestamp"

definition current_ns :: "real \<Rightarrow> int" where
  "current_ns timestamp = py_int (modf_frac timestamp * 1000000000)"

text \<open>
  \<open>is_message_after_timestamp(message, timestamp)\<close>. \<open>stream.receive()\<close> gives \<open>None\<close>
  when it times out, which \<open>if not message\<close> sends to \<open>False\<close>.
\<close>

definition is_message_after_timestamp :: "message option \<Rightarrow> real \<Rightarrow> bool" where
  "is_message_after_timestamp message timestamp =
     (case message of
        None \<Rightarrow> False
      | Some m \<Rightarrow>
          (if sec m = current_epoch timestamp
           then ns m \<ge> current_ns timestamp
           else sec m > current_epoch timestamp))"

text \<open>
  The reader object, with the attributes that \<open>__init__\<close> assigns (the stream, an
  external object, is left to the traces below) and \<open>default_read_timeout\<close>, which \<open>read\<close>
  reads from the object and no statement of the class assigns.
\<close>

record ReadGroupInterface =
  properties :: "string list"
  monitor_properties :: "string list"
  n_measurements :: int
  waiting :: real
  message_cache :: "message option"
  message_cache_timestamp :: "real option"
  default_read_timeout :: "real option"

text \<open>
  \<open>__init__(properties, monitor_properties, n_measurements, waiting)\<close>. The two defaults
  come from \<open>pyscan.config\<close> and are parameters here; \<open>x or default\<close> takes the default for
  \<open>None\<close> and for zero. Connecting the stream asks for the channels \<open>self.properties +
  self.monitor_properties\<close>, a \<open>TypeError\<close> when one of them is \<open>None\<close>; the connection
  itself is taken to succeed.
\<close>

definition ReadGroupInterface_init ::
  "string py_arg \<Rightarrow> string py_arg \<Rightarrow> int option \<Rightarrow> real option \<Rightarrow> int \<Rightarrow> real
     \<Rightarrow> error + ReadGroupInterface" where
  "ReadGroupInterface_init properties_arg monitor_properties_arg n_measurements_arg waiting_arg
       bs_default_n_measurements bs_default_waiting =
     (case convert_to_list properties_arg of
        None \<Rightarrow> Inl TypeError
      | Some ps \<Rightarrow>
          (case convert_to_list monitor_properties_arg of
             None \<Rightarrow> Inl TypeError
           | Some ms \<Rightarrow>
               Inr \<lparr>properties = ps, monitor_properties = ms,
                    n_measurements =
                      (case n_measurements_arg of
                         None \<Rightarrow> bs_default_n_measurements
                       | Some n \<Rightarrow> if n = 0 then bs_default_n_measurements else n),
                    waiting =
                      (case waiting_arg of
                         None \<Rightarrow> bs_default_waiting
                       | Some w \<Rightarrow> if w = 0 then bs_default_waiting else w),
                    message_cache = None, message_cache_timestamp = None,
                    default_read_timeout = None\<rparr>))"

text \<open>
  \<open>_read_pvs_from_cache\<close>: the values of the named channels in the cached message. The
  message of the \<open>ValueError\<close> for an empty cache ends with the list of the channels asked
  for, which is left out here.
\<close>

fun lookup_pvs :: "(string \<rightharpoonup> real) \<Rightarrow> string list \<Rightarrow> error + real list" where
  "lookup_pvs d [] = Inr []"
| "lookup_pvs d (pv_name # rest) =
     (case d pv_name of
        None \<Rightarrow> Inl (KeyError pv_name)
      | Some v \<Rightarrow> (case lookup_pvs d rest of Inl e \<Rightarrow> Inl e | Inr vs \<Rightarrow> Inr (v # vs)))"

definition read_pvs_from_cache :: "ReadGroupInterface \<Rightarrow> string list \<Rightarrow> error + real list" where
  "read_pvs_from_cache self pvs_to_read =
     (case message_cache self of
        None \<Rightarrow> Inl (ValueError ''Message cache is empty, cannot read PVs.'')
      | Some m \<Rightarrow> lookup_pvs (data m) pvs_to_read)"

text \<open>
  \<open>read\<close>. The environment is a trace: \<open>clock\<close> lists the successive results of \<open>time()\<close>
  and \<open>stream\<close> the successive results of \<open>stream.receive()\<close>. The first clock reading is
  \<open>read_timestamp\<close>; every test of the \<open>while\<close> condition takes the next one and then
  reads \<open>self.default_read_timeout\<close>. A trace that
  ends before the loop has decided gives \<open>None\<close>: the model then says nothing about the
  call. Otherwise the result is what \<open>read\<close> returns or raises, with the reader as the call
  leaves it.
\<close>

definition read_timeout_error :: error where
  "read_timeout_error =
     Exception ''Read timeout exceeded for BS read stream. Could not find the desired package in time.''"

fun read_loop ::
  "ReadGroupInterface \<Rightarrow> real \<Rightarrow> real list \<Rightarrow> message option list
     \<Rightarrow> ((error + real list) \<times> ReadGroupInterface) option" where
  "read_loop self read_timestamp [] stream = None"
| "read_loop self read_timestamp (t # clock) stream =
     (case attribute (default_read_timeout self) of
        Inl e \<Rightarrow> Some (Inl e, self)
      | Inr timeout \<Rightarrow>
          (if t - read_timestamp < timeout then
             (case stream of
                [] \<Rightarrow> None
              | message # stream' \<Rightarrow>
                  (if is_message_after_timestamp message read_timestamp then
                     (let self' = self\<lparr>message_cache := message,
                                       message_cache_timestamp := Some read_timestamp\<rparr>
                      in Some (read_pvs_from_cache self' (properties self'), self'))
                   else read_loop self read_timestamp clock stream'))
           else Some (Inl read_timeout_error, self)))"

fun read ::
  "ReadGroupInterface \<Rightarrow> real list \<Rightarrow> message option list
     \<Rightarrow> ((error + real list) \<times> ReadGroupInterface) option" where
  "read self [] stream = None"
| "read self (read_timestamp # clock) stream = read_loop self read_timestamp clock stream"

definition read_cached_monitors :: "ReadGroupInterface \<Rightarrow> error + real list" where
  "read_cached_monitors self = read_pvs_from_cache self (monitor_properties self)"

section \<open>The channel writer (pyscan/utils.py)\<close>

text \<open>
  A connected channel (an \<open>epics.PV\<close>) is an external object. The model keeps the values
  written to it and the trace of what its \<open>get()\<close> will return, call by call: a number,
  or \<open>None\<close> when no value is available. \<open>PV_get\<close> on an exhausted trace is \<open>None\<close>: the
  model says nothing about that call.
\<close>

record PV =
  puts :: "real list"
  gets :: "real option list"

definition PV_put :: "PV \<Rightarrow> real \<Rightarrow> PV" where
  "PV_put pv value = pv\<lparr>puts := puts pv @ [value]\<rparr>"

definition PV_get :: "PV \<Rightarrow> (real option \<times> PV) option" where
  "PV_get pv = (case gets pv of [] \<Rightarrow> None | v # rest \<Rightarrow> Some (v, pv\<lparr>gets := rest\<rparr>))"

text \<open>Python's truth value of what \<open>get()\<close> returned: \<open>None\<close> and the number zero are false.\<close>

definition truthy :: "real option \<Rightarrow> bool" where
  "truthy current_value = (case current_value of None \<Rightarrow> False | Some x \<Rightarrow> x \<noteq> 0)"

text \<open>\<open>for pv, value in zip(self.pvs, values): pv.put(value)\<close>\<close>

fun put_values :: "PV list \<Rightarrow> real list \<Rightarrow> PV list" where
  "put_values (pv # pvs) (value # values) = PV_put pv value # put_values pvs values"
| "put_values pvs values = pvs"

text \<open>
  The \<open>for\<close> loop inside the \<open>while\<close>: it runs over the triples of
  \<open>zip(count(), within_tolerance, self.pvs)\<close> whose flag is still false, here the pairs of
  index and flag, the channel being looked up by its index. In
  \<open>abs(pv.get() - values[index])\<close> the second \<open>get()\<close> comes first, then \<open>values[index]\<close>
  (an \<open>IndexError\<close> beyond the list), then the subtraction (a \<open>TypeError\<close> on \<open>None\<close>).
\<close>

fun poll ::
  "real list \<Rightarrow> real \<Rightarrow> (nat \<times> bool) list \<Rightarrow> bool list \<Rightarrow> PV list
     \<Rightarrow> (error + bool list \<times> PV list) option" where
  "poll values tolerance [] within_tolerance pvs = Some (Inr (within_tolerance, pvs))"
| "poll values tolerance ((index, reached) # rest) within_tolerance pvs =
     (if reached then poll values tolerance rest within_tolerance pvs
      else
        (case PV_get (pvs ! index) of
           None \<Rightarrow> None
         | Some (current_value, pv1) \<Rightarrow>
             (if \<not> truthy current_value
              then poll values tolerance rest within_tolerance (pvs[index := pv1])
              else
                (case PV_get pv1 of
                   None \<Rightarrow> None
                 | Some (second_value, pv2) \<Rightarrow>
                     (if \<not> index < length values then Some (Inl IndexError)
                      else
                        (case second_value of
                           None \<Rightarrow> Some (Inl TypeError)
                         | Some v \<Rightarrow>
                             (if \<bar>v - values ! index\<bar> < tolerance
                              then poll values tolerance rest
                                     (within_tolerance[index := True]) (pvs[index := pv2])
                              else poll values tolerance rest
                                     within_tolerance (pvs[index := pv2]))))))))"

definition convergence_error :: error where
  "convergence_error = ValueError ''Cannot achieve position in specified time.''"

text \<open>
  The \<open>while\<close> loop and the test after it. \<open>clock\<close> lists the results of the calls of
  \<open>time.time()\<close> that follow the one giving \<open>initial_timestamp\<close>; the condition asks for the
  time only while some flag is false.
\<close>

fun write_loop ::
  "real list \<Rightarrow> real \<Rightarrow> real \<Rightarrow> real \<Rightarrow> real list \<Rightarrow> bool list \<Rightarrow> PV list
     \<Rightarrow> (error + unit) option" where
  "write_loop values tolerance timeout initial_timestamp [] within_tolerance pvs =
     (if list_all (\<lambda>reached. reached) within_tolerance then Some (Inr ()) else None)"
| "write_loop values tolerance timeout initial_timestamp (t # clock) within_tolerance pvs =
     (if \<not> list_all (\<lambda>reached. reached) within_tolerance \<and> t - initial_timestamp < timeout
      then
        (case poll values tolerance (zip [0..<length pvs] within_tolerance) within_tolerance pvs of
           None \<Rightarrow> None
         | Some (Inl e) \<Rightarrow> Some (Inl e)
         | Some (Inr (within_tolerance', pvs')) \<Rightarrow>
             write_loop values tolerance timeout initial_timestamp clock within_tolerance' pvs')
      else if \<not> list_all (\<lambda>reached. reached) within_tolerance
      then Some (Inl convergence_error)
      else Some (Inr ()))"

text \<open>
  \<open>EpicsWriter.write(values, tolerance, timeout)\<close> on the writer whose channels are
  \<open>pvs\<close>. \<open>zip(self.pvs, None)\<close> is a \<open>TypeError\<close>.
\<close>

definition EpicsWriter_write ::
  "PV list \<Rightarrow> real py_arg \<Rightarrow> real \<Rightarrow> real \<Rightarrow> real list \<Rightarrow> (error + unit) option" where
  "EpicsWriter_write pvs values tolerance timeout clock =
     (case convert_to_list values of
        None \<Rightarrow> Some (Inl TypeError)
      | Some values' \<Rightarrow>
          (let pvs' = put_values pvs values';
               within_tolerance = replicate (length pvs) False
           in case clock of
                [] \<Rightarrow> None
              | initial_timestamp # clock' \<Rightarrow>
                  write_loop values' tolerance timeout initial_timestamp clock'
                    within_tolerance pvs'))"

section \<open>Generators and loops\<close>

text \<open>
  A step value as the constructors of the positioners meet it: they ask
  \<open>isinstance(steps[0], int)\<close>, then \<open>isinstance(steps[0], float)\<close>. \<open>PyOther\<close> stands for a
  value of any other type, on which arithmetic with a number raises a \<open>TypeError\<close>.
\<close>

datatype pyval = PyInt int | PyFloat real | PyOther

fun num :: "pyval \<Rightarrow> real option" where
  "num (PyInt n) = Some (of_int n)"
| "num (PyFloat x) = Some x"
| "num PyOther = None"

text \<open>\<open>x / step\<close> for a float \<open>x\<close>.\<close>

definition py_div :: "real \<Rightarrow> pyval \<Rightarrow> error + real" where
  "py_div x step =
     (case num step of
        None \<Rightarrow> Inl TypeError
      | Some d \<Rightarrow> if d = 0 then Inl ZeroDivisionError else Inr (x / d))"

text \<open>\<open>xs[i]\<close> for an index that is not negative.\<close>

definition item :: "'a list \<Rightarrow> nat \<Rightarrow> error + 'a" where
  "item xs i = (if i < length xs then Inr (xs ! i) else Inl IndexError)"

text \<open>The values of \<open>range(start, stop, step)\<close>; \<open>range(n)\<close> is \<open>range(0, n, 1)\<close>.\<close>

definition py_range :: "int \<Rightarrow> int \<Rightarrow> int \<Rightarrow> int list" where
  "py_range start stop step =
     map (\<lambda>k. start + int k * step)
       [0..<nat (if 0 < step then (stop - start + step - 1) div step
                 else (start - stop - step - 1) div (- step))]"

text \<open>
  A piece of the body of a generator function takes the local variables as it finds
  them and gives what it yields, in order, with the local variables as it leaves them,
  or the exception it raises. A generator is modelled by what a consumer gets that runs
  it to its end, \<open>list(positioner.get_generator())\<close>: all the vectors, or the exception.
\<close>

type_synonym ('o, 's) gen = "'s \<Rightarrow> error + 'o list \<times> 's"

definition skip :: "('o, 's) gen" where
  "skip s = Inr ([], s)"

definition yield :: "('s \<Rightarrow> 'o) \<Rightarrow> ('o, 's) gen" where
  "yield f s = Inr ([f s], s)"

definition assign :: "('s \<Rightarrow> error + 's) \<Rightarrow> ('o, 's) gen" where
  "assign f s = (case f s of Inl e \<Rightarrow> Inl e | Inr s' \<Rightarrow> Inr ([], s'))"

definition seq :: "('o, 's) gen \<Rightarrow> ('o, 's) gen \<Rightarrow> ('o, 's) gen" where
  "seq first second s =
     (case first s of
        Inl e \<Rightarrow> Inl e
      | Inr (out1, s1) \<Rightarrow>
          (case second s1 of Inl e \<Rightarrow> Inl e | Inr (out2, s2) \<Rightarrow> Inr (out1 @ out2, s2)))"

text \<open>\<open>for x in xs: body\<close>, and the same when evaluating the iterable may raise.\<close>

fun for_each :: "'i list \<Rightarrow> ('i \<Rightarrow> ('o, 's) gen) \<Rightarrow> ('o, 's) gen" where
  "for_each [] body s = Inr ([], s)"
| "for_each (x # xs) body s = seq (body x) (for_each xs body) s"

definition for_in :: "(error + 'i list) \<Rightarrow> ('i \<Rightarrow> ('o, 's) gen) \<Rightarrow> ('o, 's) gen" where
  "for_in iterable body s =
     (case iterable of Inl e \<Rightarrow> Inl e | Inr xs \<Rightarrow> for_each xs body s)"

text \<open>Running a generator function to its end, from its local variables at entry.\<close>

definition run :: "('o, 's) gen \<Rightarrow> 's \<Rightarrow> error + 'o list" where
  "run g s = (case g s of Inl e \<Rightarrow> Inl e | Inr (out, s') \<Rightarrow> Inr out)"

section \<open>The positioners (pyscan/positioner.py)\<close>

subsection \<open>LinearPositioner and ZigZagLinearPositioner\<close>

text \<open>
  The attributes the positioner classes have in common are the fields of one record,
  which the classes with more attributes extend. The type parameter of the common record
  is what \<open>offsets\<close> holds when it is not \<open>None\<close>; the type parameters of the positioners
  are the type of a position on one axis and the types of what \<open>n_steps\<close> and \<open>step_size\<close>
  hold; these two attributes are \<open>None\<close> while no statement has assigned them. \<open>end'\<close> is
  the attribute \<open>end\<close>.
\<close>

record 'o scan =
  offsets :: "'o option"
  passes :: int

record ('p, 'n, 's) positioner = "'p list scan" +
  end' :: "'p list"
  start :: "'p list"
  n_steps :: "'n option"
  step_size :: "'s option"

type_synonym LinearPositioner = "(real, int, pyval list) positioner"

text \<open>
  \<open>if self.offsets:\<close> holds for a list that is not empty; then every coordinate gets its
  offset, \<open>zip\<close> stopping at the shorter list.
\<close>

definition add_offsets :: "real list \<Rightarrow> real list option \<Rightarrow> real list" where
  "add_offsets original_values offsets_arg =
     (case offsets_arg of
        None \<Rightarrow> original_values
      | Some os \<Rightarrow>
          if os = [] then original_values
          else map (\<lambda>(original_value, offset). offset + original_value) (zip original_values os))"

text \<open>
  \<open>[(end - start) / steps for start, end, steps in zip(self.start, self.end, steps)]\<close>:
  the first division that raises ends the comprehension.
\<close>

fun step_sizes :: "real list \<Rightarrow> real list \<Rightarrow> pyval list \<Rightarrow> error + real list" where
  "step_sizes (s # starts) (e # ends) (step # rest) =
     (case py_div (e - s) step of
        Inl err \<Rightarrow> Inl err
      | Inr d \<Rightarrow>
          (case step_sizes starts ends rest of Inl err \<Rightarrow> Inl err | Inr ds \<Rightarrow> Inr (d # ds)))"
| "step_sizes starts ends rest = Inr []"

text \<open>
  \<open>LinearPositioner.__init__(start, end, steps, passes, offsets)\<close>. \<open>steps[0]\<close> raises on an
  empty list. In the step size case the step count comes from the arguments \<open>end[0]\<close>,
  \<open>start[0]\<close> and \<open>steps[0]\<close>. In the last case the constructor does nothing (\<open>pass\<close>, under
  the comment \<open>TODO: Raise an exception.\<close>).
\<close>

definition LinearPositioner_init ::
  "real list \<Rightarrow> real list \<Rightarrow> pyval list \<Rightarrow> int \<Rightarrow> real list option \<Rightarrow> error + LinearPositioner" where
  "LinearPositioner_init start_arg end_arg steps passes_arg offsets_arg =
     (let self = \<lparr>offsets = offsets_arg, passes = passes_arg,
                   end' = add_offsets end_arg offsets_arg,
                   start = add_offsets start_arg offsets_arg,
                   n_steps = None, step_size = None\<rparr>
      in case steps of
           [] \<Rightarrow> Inl IndexError
         | PyInt n # _ \<Rightarrow>
             (case step_sizes (start self) (end' self) steps of
                Inl e \<Rightarrow> Inl e
              | Inr sizes \<Rightarrow> Inr (self\<lparr>n_steps := Some n, step_size := Some (map PyFloat sizes)\<rparr>))
         | PyFloat step # _ \<Rightarrow>
             (if end_arg = [] \<or> start_arg = [] then Inl IndexError
              else if step = 0 then Inl ZeroDivisionError
              else Inr (self\<lparr>n_steps := Some \<lfloor>(hd end_arg - hd start_arg) / step\<rfloor>,
                              step_size := Some steps\<rparr>))
         | PyOther # _ \<Rightarrow> Inr self)"

text \<open>
  \<open>[position + (step_size * direction) for position, step_size in zip(current_positions,
  self.step_size)]\<close>; the plain positioner has no \<open>direction\<close>, which is the factor one.
\<close>

fun move :: "real \<Rightarrow> real list \<Rightarrow> pyval list \<Rightarrow> error + real list" where
  "move direction (position # positions) (step # sizes) =
     (case num step of
        None \<Rightarrow> Inl TypeError
      | Some d \<Rightarrow>
          (case move direction positions sizes of
             Inl e \<Rightarrow> Inl e
           | Inr moved \<Rightarrow> Inr ((position + d * direction) # moved)))"
| "move direction positions sizes = Inr []"

definition range_of :: "int option \<Rightarrow> error + int list" where
  "range_of n = (case attribute n of Inl e \<Rightarrow> Inl e | Inr n' \<Rightarrow> Inr (py_range 0 n' 1))"

definition step_by :: "real \<Rightarrow> pyval list option \<Rightarrow> real list \<Rightarrow> error + real list" where
  "step_by direction sizes current_positions =
     (case attribute sizes of Inl e \<Rightarrow> Inl e | Inr sizes' \<Rightarrow> move direction current_positions sizes')"

text \<open>
  \<open>LinearPositioner.get_generator\<close>. The local variable is \<open>current_positions\<close>, not
  bound at entry (the empty list stands for that; each pass assigns it first).
\<close>

definition LinearPositioner_body :: "LinearPositioner \<Rightarrow> (real list, real list) gen" where
  "LinearPositioner_body self =
     for_in (Inr (py_range 0 (passes self) 1)) (\<lambda>_.
       seq (assign (\<lambda>_. Inr (start self)))
      (seq (yield (\<lambda>current_positions. current_positions))
           (for_in (range_of (n_steps self)) (\<lambda>_.
              seq (assign (step_by 1 (step_size self)))
                  (yield (\<lambda>current_positions. current_positions))))))"

definition LinearPositioner_get_generator :: "LinearPositioner \<Rightarrow> error + real list list" where
  "LinearPositioner_get_generator self = run (LinearPositioner_body self) []"



subsection \<open>VectorPositioner and ZigZagVectorPositioner\<close>

text \<open>
  The vector positioners keep the rows they are given, the very list objects of the caller:
  the constructor edits them in place and the generators yield them. So a row is a
  reference here, an address in a heap of list objects, and \<open>positions\<close> is the list of the
  references in the order of the outer list (a row that occurs twice in it is one object).
  The heap also knows the addresses in use, those below \<open>next_ref\<close>. The list \<open>offsets\<close> is
  an object as well; the outer list of the rows is taken as it is at the construction.
\<close>

type_synonym ref = nat

record heap =
  objects :: "ref \<Rightarrow> real list"
  next_ref :: ref

record VectorPositioner = "ref scan" +
  positions :: "ref list"
  n_positions :: int

text \<open>\<open>x[:] = items\<close>: the object keeps its identity and gets new items.\<close>

definition set_items :: "ref \<Rightarrow> real list \<Rightarrow> heap \<Rightarrow> heap" where
  "set_items x new_items H = H\<lparr>objects := (objects H)(x := new_items)\<rparr>"

text \<open>
  \<open>for step_positions in self.positions: step_positions[:] = [original_position + offset for
  original_position, offset in zip(step_positions, self.offsets)]\<close>: each round reads the
  row and the offsets as the rounds before have left them.
\<close>

fun add_offsets_in_place :: "ref \<Rightarrow> ref list \<Rightarrow> heap \<Rightarrow> heap" where
  "add_offsets_in_place offsets_ref [] H = H"
| "add_offsets_in_place offsets_ref (step_positions # rest) H =
     add_offsets_in_place offsets_ref rest
       (set_items step_positions
          (map (\<lambda>(original_position, offset). original_position + offset)
             (zip (objects H step_positions) (objects H offsets_ref))) H)"

text \<open>
  \<open>VectorPositioner.__init__(positions, passes, offsets)\<close> gives the new object and the heap
  as it leaves it; \<open>if self.offsets:\<close> holds for a list that is not empty.
\<close>

definition VectorPositioner_init ::
  "ref list \<Rightarrow> int \<Rightarrow> ref option \<Rightarrow> heap \<Rightarrow> VectorPositioner \<times> heap" where
  "VectorPositioner_init positions_arg passes_arg offsets_arg H =
     (\<lparr>offsets = offsets_arg, passes = passes_arg,
       positions = positions_arg,
       n_positions = int (length positions_arg)\<rparr>,
      case offsets_arg of
        None \<Rightarrow> H
      | Some offsets_ref \<Rightarrow>
          if objects H offsets_ref = [] then H
          else add_offsets_in_place offsets_ref positions_arg H)"



text \<open>
  \<open>itertools.cycle(iterable)\<close> gives the items of the iterable and then the same items
  again, for ever; the iterator is modelled by the items still to come in this round
  and the items of a round. \<open>next\<close> on the cycle of nothing raises \<open>StopIteration\<close>, which
  leaves a generator function as a \<open>RuntimeError\<close>.
\<close>

definition cycle :: "'a list \<Rightarrow> 'a list \<times> 'a list" where
  "cycle iterable = (iterable, iterable)"

definition cycle_next :: "'a list \<times> 'a list \<Rightarrow> error + 'a \<times> ('a list \<times> 'a list)" where
  "cycle_next it =
     (case fst it of
        x # pending \<Rightarrow> Inr (x, (pending, snd it))
      | [] \<Rightarrow>
          (case snd it of
             [] \<Rightarrow> Inl RuntimeError
           | x # pending \<Rightarrow> Inr (x, (pending, snd it))))"

text \<open>\<open>xs[i]\<close> for any integer \<open>i\<close>: a negative index counts from the end.\<close>

definition py_item :: "'a list \<Rightarrow> int \<Rightarrow> error + 'a" where
  "py_item xs i =
     (if 0 \<le> i \<and> i < int (length xs) then Inr (xs ! nat i)
      else if i < 0 \<and> - int (length xs) \<le> i then Inr (xs ! nat (int (length xs) + i))
      else Inl IndexError)"

text \<open>A \<open>yield\<close> of an expression that changes the local variables or raises.\<close>

definition emit :: "('s \<Rightarrow> error + 'o \<times> 's) \<Rightarrow> ('o, 's) gen" where
  "emit f s = (case f s of Inl e \<Rightarrow> Inl e | Inr (v, s') \<Rightarrow> Inr ([v], s'))"

text \<open>
  \<open>ZigZagVectorPositioner.get_generator\<close>. The local variable that lasts is the iterator
  \<open>indexes\<close> (not bound at entry: the cycle of nothing stands for that).
\<close>

definition next_position ::
  "VectorPositioner \<Rightarrow> int list \<times> int list \<Rightarrow> error + ref \<times> (int list \<times> int list)" where
  "next_position self indexes =
     (case cycle_next indexes of
        Inl e \<Rightarrow> Inl e
      | Inr (i, indexes') \<Rightarrow>
          (case py_item (positions self) i of
             Inl e \<Rightarrow> Inl e
           | Inr position \<Rightarrow> Inr (position, indexes')))"

definition n_indexes :: "VectorPositioner \<Rightarrow> int" where
  "n_indexes self = n_positions self + ((passes self - 1) * (n_positions self - 1))"

definition ZigZagVectorPositioner_body ::
  "VectorPositioner \<Rightarrow> (ref, int list \<times> int list) gen" where
  "ZigZagVectorPositioner_body self =
     seq (assign (\<lambda>_. Inr (cycle (py_range 0 (n_positions self) 1
                                    @ py_range (n_positions self - 2) 0 (- 1)))))
         (for_in (Inr (py_range 0 (n_indexes self) 1)) (\<lambda>x. emit (next_position self)))"

definition ZigZagVectorPositioner_get_generator :: "VectorPositioner \<Rightarrow> error + ref list" where
  "ZigZagVectorPositioner_get_generator self = run (ZigZagVectorPositioner_body self) ([], [])"

subsection \<open>AreaPositioner and ZigZagAreaPositioner\<close>

record ('p, 'n, 's) area_positioner = "('p, 'n, 's) positioner" +
  n_axis :: nat

type_synonym AreaPositioner = "(real, pyval list, pyval list) area_positioner"

text \<open>
  \<open>AreaPositioner.__init__(start, end, steps, passes, offsets)\<close>. The number of axes is
  the length of \<open>start\<close> as given. With step counts, \<open>n_steps\<close> is the list \<open>steps\<close> itself;
  with step sizes it is the list of \<open>math.floor((end - start) / step)\<close>. In the last case
  the constructor does nothing (\<open>pass\<close>, under the comment \<open>TODO: Raise an exception.\<close>).
\<close>

definition AreaPositioner_init ::
  "real list \<Rightarrow> real list \<Rightarrow> pyval list \<Rightarrow> int \<Rightarrow> real list option \<Rightarrow> error + AreaPositioner" where
  "AreaPositioner_init start_arg end_arg steps passes_arg offsets_arg =
     (let self = \<lparr>offsets = offsets_arg, passes = passes_arg,
                   end' = add_offsets end_arg offsets_arg,
                   start = add_offsets start_arg offsets_arg,
                   n_steps = None, step_size = None,
                   n_axis = length start_arg\<rparr>
      in case steps of
           [] \<Rightarrow> Inl IndexError
         | PyInt n # _ \<Rightarrow>
             (case step_sizes (start self) (end' self) steps of
                Inl e \<Rightarrow> Inl e
              | Inr sizes \<Rightarrow> Inr (self\<lparr>n_steps := Some steps, step_size := Some (map PyFloat sizes)\<rparr>))
         | PyFloat step # _ \<Rightarrow>
             (case step_sizes (start self) (end' self) steps of
                Inl e \<Rightarrow> Inl e
              | Inr quotients \<Rightarrow>
                  Inr (self\<lparr>n_steps := Some (map (\<lambda>q. PyInt \<lfloor>q\<rfloor>) quotients),
                           step_size := Some steps\<rparr>))
         | PyOther # _ \<Rightarrow> Inr self)"

text \<open>\<open>range(self.n_steps[axis_number])\<close>: \<open>range\<close> takes an \<open>int\<close> only.\<close>

definition axis_range :: "pyval list option \<Rightarrow> nat \<Rightarrow> error + int list" where
  "axis_range counts axis_number =
     (case attribute counts of
        Inl e \<Rightarrow> Inl e
      | Inr counts' \<Rightarrow>
          (case item counts' axis_number of
             Inl e \<Rightarrow> Inl e
           | Inr (PyInt k) \<Rightarrow> Inr (py_range 0 k 1)
           | Inr _ \<Rightarrow> Inl TypeError))"







text \<open>
  \<open>ZigZagAreaPositioner.get_generator\<close>. The variables the nested \<open>scan_axis\<close> works on
  are \<open>directions\<close> and \<open>positions\<close>, in this order in the pair. \<open>directions[axis_number] *=
  -1\<close> ends a run of \<open>scan_axis\<close> on an axis.
\<close>

definition zigzag_step_axis ::
  "pyval list option \<Rightarrow> nat \<Rightarrow> int list \<times> real list \<Rightarrow> error + int list \<times> real list" where
  "zigzag_step_axis sizes axis_number s =
     (case item (snd s) axis_number of
        Inl e \<Rightarrow> Inl e
      | Inr position \<Rightarrow>
          (case attribute sizes of
             Inl e \<Rightarrow> Inl e
           | Inr sizes' \<Rightarrow>
               (case item sizes' axis_number of
                  Inl e \<Rightarrow> Inl e
                | Inr step \<Rightarrow>
                    (case item (fst s) axis_number of
                       Inl e \<Rightarrow> Inl e
                     | Inr direction \<Rightarrow>
                         (case num step of
                            None \<Rightarrow> Inl TypeError
                          | Some d \<Rightarrow>
                              Inr (fst s, (snd s)[axis_number := position + d * of_int direction]))))))"

definition invert_direction :: "nat \<Rightarrow> int list \<times> real list \<Rightarrow> error + int list \<times> real list" where
  "invert_direction axis_number s =
     (case item (fst s) axis_number of
        Inl e \<Rightarrow> Inl e
      | Inr direction \<Rightarrow> Inr ((fst s)[axis_number := direction * (- 1)], snd s))"

function ZigZagAreaPositioner_scan_axis ::
  "AreaPositioner \<Rightarrow> nat \<Rightarrow> (real list, int list \<times> real list) gen" where
  "ZigZagAreaPositioner_scan_axis self axis_number =
     (if \<not> axis_number < n_axis self then skip
      else
        seq (ZigZagAreaPositioner_scan_axis self (axis_number + 1))
       (seq (for_in (axis_range (n_steps self) axis_number) (\<lambda>_.
               seq (assign (zigzag_step_axis (step_size self) axis_number))
              (seq (yield snd)
                   (ZigZagAreaPositioner_scan_axis self (axis_number + 1)))))
            (assign (invert_direction axis_number))))"
  by pat_completeness auto
termination
  by (relation "measure (\<lambda>(self, axis_number). n_axis self - axis_number)") auto

declare ZigZagAreaPositioner_scan_axis.simps [simp del]

text \<open>
  The two assignments that open the body of the loop over the passes, \<open>directions = [1] *
  self.n_axis\<close> and \<open>positions = copy(self.start)\<close>, and the body of that loop.
\<close>

definition ZigZagAreaPositioner_begin_pass ::
  "AreaPositioner \<Rightarrow> (real list, int list \<times> real list) gen" where
  "ZigZagAreaPositioner_begin_pass self = assign (\<lambda>_. Inr (replicate (n_axis self) 1, start self))"

definition ZigZagAreaPositioner_pass ::
  "AreaPositioner \<Rightarrow> (real list, int list \<times> real list) gen" where
  "ZigZagAreaPositioner_pass self =
     seq (ZigZagAreaPositioner_begin_pass self)
    (seq (yield snd)
         (ZigZagAreaPositioner_scan_axis self 0))"

definition ZigZagAreaPositioner_body ::
  "AreaPositioner \<Rightarrow> (real list, int list \<times> real list) gen" where
  "ZigZagAreaPositioner_body self =
     for_in (Inr (py_range 0 (passes self) 1)) (\<lambda>pass_number. ZigZagAreaPositioner_pass self)"

definition ZigZagAreaPositioner_get_generator :: "AreaPositioner \<Rightarrow> error + real list list" where
  "ZigZagAreaPositioner_get_generator self = run (ZigZagAreaPositioner_body self) ([], [])"

subsection \<open>MultiAreaPositioner\<close>

type_synonym MultiAreaPositioner = "(real list, pyval list list, pyval list list) area_positioner"

text \<open>
  Here the position on an axis is a list of numbers, and \<open>start\<close>, \<open>end\<close>, \<open>steps\<close> and
  \<open>offsets\<close> are lists of lists. The constructor looks at \<open>steps[0][0]\<close>.
\<close>

definition add_offsets_lines :: "real list list \<Rightarrow> real list list option \<Rightarrow> real list list" where
  "add_offsets_lines original_lines offsets_arg =
     (case offsets_arg of
        None \<Rightarrow> original_lines
      | Some os \<Rightarrow>
          if os = [] then original_lines
          else map (\<lambda>(original_values, line_offsets).
                 map (\<lambda>(original_value, offset). original_value + offset)
                   (zip original_values line_offsets))
                 (zip original_lines os))"

fun step_sizes_lines ::
  "real list list \<Rightarrow> real list list \<Rightarrow> pyval list list \<Rightarrow> error + real list list" where
  "step_sizes_lines (starts # ss) (ends # es) (line_steps # rest) =
     (case step_sizes starts ends line_steps of
        Inl err \<Rightarrow> Inl err
      | Inr ds \<Rightarrow>
          (case step_sizes_lines ss es rest of Inl err \<Rightarrow> Inl err | Inr dss \<Rightarrow> Inr (ds # dss)))"
| "step_sizes_lines ss es rest = Inr []"

definition MultiAreaPositioner_init ::
  "real list list \<Rightarrow> real list list \<Rightarrow> pyval list list \<Rightarrow> int \<Rightarrow> real list list option
     \<Rightarrow> error + MultiAreaPositioner" where
  "MultiAreaPositioner_init start_arg end_arg steps passes_arg offsets_arg =
     (let self = \<lparr>offsets = offsets_arg, passes = passes_arg,
                   end' = add_offsets_lines end_arg offsets_arg,
                   start = add_offsets_lines start_arg offsets_arg,
                   n_steps = None, step_size = None,
                   n_axis = length start_arg\<rparr>
      in case steps of
           [] \<Rightarrow> Inl IndexError
         | [] # _ \<Rightarrow> Inl IndexError
         | (PyInt n # _) # _ \<Rightarrow>
             (case step_sizes_lines (start self) (end' self) steps of
                Inl e \<Rightarrow> Inl e
              | Inr sizes \<Rightarrow>
                  Inr (self\<lparr>n_steps := Some steps, step_size := Some (map (map PyFloat) sizes)\<rparr>))
         | (PyFloat step # _) # _ \<Rightarrow>
             (case step_sizes_lines (start self) (end' self) steps of
                Inl e \<Rightarrow> Inl e
              | Inr quotients \<Rightarrow>
                  Inr (self\<lparr>n_steps := Some (map (map (\<lambda>q. PyInt \<lfloor>q\<rfloor>)) quotients),
                           step_size := Some steps\<rparr>))
         | (PyOther # _) # _ \<Rightarrow> Inr self)"







subsection \<open>The vectors of the linear and the area positioners as objects\<close>



section \<open>The reader: timestamp matching and the read timeout\<close>

text \<open>
  Claim C5. With the reference time split into the integer seconds \<open>S\<close> = \<open>current_epoch t\<close>
  and the truncated integer nanoseconds \<open>N\<close> = \<open>current_ns t\<close>, a received message matches
  exactly when its seconds exceed \<open>S\<close>, or equal \<open>S\<close> with nanoseconds at least \<open>N\<close>. So a
  message with seconds below \<open>S\<close> never matches whatever its nanoseconds, a message exactly
  at the boundary matches, and an absent message (a receive timeout) never matches.
\<close>

theorem is_message_after_timestamp_iff:
  "is_message_after_timestamp (Some m) t =
     (sec m > current_epoch t \<or> (sec m = current_epoch t \<and> ns m \<ge> current_ns t))
   \<and> (sec m < current_epoch t \<longrightarrow> \<not> is_message_after_timestamp (Some m) t)
   \<and> (sec m = current_epoch t \<and> ns m = current_ns t \<longrightarrow> is_message_after_timestamp (Some m) t)
   \<and> \<not> is_message_after_timestamp None t"
  by (auto simp: is_message_after_timestamp_def)

theorem is_message_after_timestamp_iff_witness:
  "is_message_after_timestamp (Some \<lparr>sec = 12, ns = 500000000, data = Map.empty\<rparr>) (25 / 2)
   \<and> \<not> is_message_after_timestamp (Some \<lparr>sec = 11, ns = 999999999, data = Map.empty\<rparr>) (25 / 2)
   \<and> \<not> is_message_after_timestamp (Some \<lparr>sec = 12, ns = 499999999, data = Map.empty\<rparr>) (25 / 2)
   \<and> is_message_after_timestamp (Some \<lparr>sec = 13, ns = 0, data = Map.empty\<rparr>) (25 / 2)
   \<and> current_epoch (25 / 2) = 12 \<and> current_ns (25 / 2) = 500000000"
proof -
  have e: "current_epoch (25 / 2) = 12"
    by (simp add: current_epoch_def py_int_def)
  have f: "modf_frac (25 / 2) * 1000000000 = 500000000"
    using e by (simp add: modf_frac_def current_epoch_def)
  have n: "current_ns (25 / 2) = 500000000"
    unfolding current_ns_def f by (simp add: py_int_def)
  show ?thesis
    using is_message_after_timestamp_iff [of "\<lparr>sec = 12, ns = 500000000, data = Map.empty\<rparr>" "25 / 2"]
      is_message_after_timestamp_iff [of "\<lparr>sec = 11, ns = 999999999, data = Map.empty\<rparr>" "25 / 2"]
      is_message_after_timestamp_iff [of "\<lparr>sec = 12, ns = 499999999, data = Map.empty\<rparr>" "25 / 2"]
      is_message_after_timestamp_iff [of "\<lparr>sec = 13, ns = 0, data = Map.empty\<rparr>" "25 / 2"]
    by (simp add: e n)
qed

text \<open>
  The loop of \<open>read\<close> on a reader whose \<open>default_read_timeout\<close> has been set, when the
  clock runs out first: the readings \<open>clock ! i\<close> for \<open>i < k\<close> keep the loop going, none of
  the \<open>k\<close> messages received meanwhile matches, and reading \<open>k\<close> ends the loop. Then
  \<open>read\<close> raises the read-timeout exception and leaves the reader as it was.
\<close>

lemma read_loop_timeout:
  "default_read_timeout self = Some timeout \<Longrightarrow>
   k < length clock \<Longrightarrow>
   \<forall>i<k. clock ! i - t0 < timeout \<Longrightarrow>
   \<not> clock ! k - t0 < timeout \<Longrightarrow>
   k \<le> length stream \<Longrightarrow>
   \<forall>i<k. \<not> is_message_after_timestamp (stream ! i) t0 \<Longrightarrow>
   read_loop self t0 clock stream = Some (Inl read_timeout_error, self)"
proof (induction clock arbitrary: k stream)
  case Nil
  then show ?case by simp
next
  case (Cons t clock)
  show ?case
  proof (cases k)
    case 0
    with Cons.prems show ?thesis by (simp add: attribute_def)
  next
    case (Suc j)
    with Cons.prems obtain message stream' where s: "stream = message # stream'"
      by (cases stream) auto
    from Cons.prems Suc have t: "t - t0 < timeout" by auto
    from Cons.prems Suc s have m: "\<not> is_message_after_timestamp message t0" by auto
    have "read_loop self t0 clock stream' = Some (Inl read_timeout_error, self)"
    proof (rule Cons.IH [of j])
      show "default_read_timeout self = Some timeout" by (rule Cons.prems(1))
      show "j < length clock" using Cons.prems Suc by simp
      show "\<forall>i<j. clock ! i - t0 < timeout"
        using Cons.prems(3) Suc by auto
      show "\<not> clock ! j - t0 < timeout"
        using Cons.prems(4) Suc by simp
      show "j \<le> length stream'" using Cons.prems(5) Suc s by simp
      show "\<forall>i<j. \<not> is_message_after_timestamp (stream' ! i) t0"
        using Cons.prems(6) Suc s by auto
    qed
    with t m s Cons.prems(1) show ?thesis by (simp add: attribute_def)
  qed
qed

lemma read_timeout_when_set:
  assumes "default_read_timeout self = Some timeout"
    and "k < length clock"
    and "\<forall>i<k. clock ! i - t0 < timeout"
    and "\<not> clock ! k - t0 < timeout"
    and "k \<le> length stream"
    and "\<forall>i<k. \<not> is_message_after_timestamp (stream ! i) t0"
  shows "read self (t0 # clock) stream = Some (Inl read_timeout_error, self)"
  using assms by (simp add: read_loop_timeout)

text \<open>
  Claim C2, at the input where the code leaves it. A reader as \<open>__init__\<close> builds it has no
  attribute \<open>default_read_timeout\<close>. Whatever the stream delivers, also when no message
  ever matches, the first test of the \<open>while\<close> condition of \<open>read\<close> raises an
  \<open>AttributeError\<close>, not the read-timeout exception.
\<close>

theorem read_raises_attribute_error:
  "ReadGroupInterface_init (Scalar ''A'') (ListArg []) None None n w
     = Inr \<lparr>properties = [''A''], monitor_properties = [], n_measurements = n, waiting = w,
            message_cache = None, message_cache_timestamp = None, default_read_timeout = None\<rparr>
   \<and> read \<lparr>properties = [''A''], monitor_properties = [], n_measurements = n, waiting = w,
            message_cache = None, message_cache_timestamp = None, default_read_timeout = None\<rparr>
        (t0 # t1 # clock) stream
     = Some (Inl AttributeError,
         \<lparr>properties = [''A''], monitor_properties = [], n_measurements = n, waiting = w,
            message_cache = None, message_cache_timestamp = None, default_read_timeout = None\<rparr>)"
  by (simp add: ReadGroupInterface_init_def attribute_def)

section \<open>The writer: polling, the zero readback and the second read\<close>

text \<open>Writing the targets changes no channel's trace of reads.\<close>

lemma length_put_values: "length (put_values pvs vs) = length pvs"
  by (induction pvs vs rule: put_values.induct) simp_all

lemma gets_put_values: "j < length pvs \<Longrightarrow> gets (put_values pvs vs ! j) = gets (pvs ! j)"
proof (induction pvs vs arbitrary: j rule: put_values.induct)
  case (1 pv pvs v vs)
  then show ?case by (cases j) (simp_all add: PV_put_def)
qed simp_all

text \<open>One false flag keeps \<open>all(within_tolerance)\<close> false.\<close>

lemma not_all_within: "i < length wt \<Longrightarrow> \<not> wt ! i \<Longrightarrow> \<not> list_all (\<lambda>reached. reached) wt"
  by (auto simp: list_all_length)

text \<open>
  One run of the \<open>for\<close> loop, over the index/flag pairs \<open>ps\<close> still to visit, when channel
  \<open>i\<close> reads zero for ever, no read of any channel is \<open>None\<close>, every channel has a
  target, every channel still to visit has two reads left beyond \<open>2 * k\<close> and every channel
  has \<open>2 * k\<close>: the loop ends normally, channel \<open>i\<close> is still not flagged, and the
  invariant holds again with \<open>2 * k\<close> reads left everywhere. Whatever the visit of a
  channel does, the rest of the loop runs on a state that differs at that index only, by
  a channel that lost at most two reads.
\<close>

lemma poll_zero_channel:
  assumes "distinct (map fst ps)"
    and "\<forall>p\<in>set ps. fst p < length pvs \<and> (fst p = i \<longrightarrow> \<not> snd p)"
    and "i < length pvs"
    and "\<not> wt ! i"
    and "\<forall>v\<in>set (gets (pvs ! i)). v = Some 0"
    and "\<forall>j<length pvs. None \<notin> set (gets (pvs ! j))"
    and "\<forall>p\<in>set ps. 2 * Suc k \<le> length (gets (pvs ! fst p))"
    and "\<forall>j<length pvs. 2 * k \<le> length (gets (pvs ! j))"
    and "length pvs \<le> length vs"
  shows "\<exists>wt' pvs'. poll vs tol ps wt pvs = Some (Inr (wt', pvs'))
           \<and> length pvs' = length pvs \<and> length wt' = length wt \<and> \<not> wt' ! i
           \<and> (\<forall>v\<in>set (gets (pvs' ! i)). v = Some 0)
           \<and> (\<forall>j<length pvs. None \<notin> set (gets (pvs' ! j)))
           \<and> (\<forall>j<length pvs. 2 * k \<le> length (gets (pvs' ! j)))"
  using assms
proof (induction ps arbitrary: wt pvs)
  case Nil
  then show ?case by simp
next
  case (Cons p ps)
  obtain index reached where p: "p = (index, reached)" by (cases p)
  have idx: "index < length pvs" and ir: "index = i \<longrightarrow> \<not> reached"
    using Cons.prems(2) p by auto
  have notin: "index \<notin> fst ` set ps" and dist: "distinct (map fst ps)"
    using Cons.prems(1) p by auto
  have len2: "2 * Suc k \<le> length (gets (pvs ! index))"
    using Cons.prems(7) p by auto
  have step: "\<exists>wt' pvs'. poll vs tol ps w q = Some (Inr (wt', pvs'))
           \<and> length pvs' = length pvs \<and> length wt' = length wt \<and> \<not> wt' ! i
           \<and> (\<forall>v\<in>set (gets (pvs' ! i)). v = Some 0)
           \<and> (\<forall>j<length pvs. None \<notin> set (gets (pvs' ! j)))
           \<and> (\<forall>j<length pvs. 2 * k \<le> length (gets (pvs' ! j)))"
    if q: "q = pvs[index := pv']" and w: "length w = length wt" "\<not> w ! i"
      and g: "set (gets pv') \<subseteq> set (gets (pvs ! index))" "2 * k \<le> length (gets pv')"
    for w q pv'
  proof -
    have lq: "length q = length pvs" using q by simp
    have nth: "\<And>j. j < length pvs \<Longrightarrow> gets (q ! j) = (if j = index then gets pv' else gets (pvs ! j))"
      using q by (simp add: nth_list_update)
    have "\<exists>wt' pvs'. poll vs tol ps w q = Some (Inr (wt', pvs'))
           \<and> length pvs' = length q \<and> length wt' = length w \<and> \<not> wt' ! i
           \<and> (\<forall>v\<in>set (gets (pvs' ! i)). v = Some 0)
           \<and> (\<forall>j<length q. None \<notin> set (gets (pvs' ! j)))
           \<and> (\<forall>j<length q. 2 * k \<le> length (gets (pvs' ! j)))"
    proof (rule Cons.IH)
      show "distinct (map fst ps)" by (rule dist)
      show "\<forall>p\<in>set ps. fst p < length q \<and> (fst p = i \<longrightarrow> \<not> snd p)"
        using Cons.prems(2) lq by auto
      show "i < length q" using Cons.prems(3) lq by simp
      show "\<not> w ! i" by (rule w)
      show "\<forall>v\<in>set (gets (q ! i)). v = Some 0"
        using Cons.prems(3,5) g(1) nth [of i] by (auto split: if_splits)
      show "\<forall>j<length q. None \<notin> set (gets (q ! j))"
        using Cons.prems(6) g(1) idx nth lq by (auto split: if_splits)
      show "\<forall>p\<in>set ps. 2 * Suc k \<le> length (gets (q ! fst p))"
      proof
        fix p' assume p': "p' \<in> set ps"
        then have "fst p' \<noteq> index" using notin by auto
        moreover have "fst p' < length pvs" using Cons.prems(2) p' by auto
        ultimately have "gets (q ! fst p') = gets (pvs ! fst p')" using nth by simp
        then show "2 * Suc k \<le> length (gets (q ! fst p'))"
          using Cons.prems(7) p' by auto
      qed
      show "\<forall>j<length q. 2 * k \<le> length (gets (q ! j))"
        using Cons.prems(8) g(2) nth lq by auto
      show "length q \<le> length vs" using Cons.prems(9) lq by simp
    qed
    then show ?thesis using lq w by simp
  qed
  show ?case
  proof (cases reached)
    case True
    have "pvs = pvs[index := pvs ! index]" by simp
    from step [OF this refl Cons.prems(4)] Cons.prems(8) idx True p
    show ?thesis by simp
  next
    case False
    from len2 obtain v1 v2 rest where gs: "gets (pvs ! index) = v1 # v2 # rest"
      by (cases "gets (pvs ! index)"; cases "tl (gets (pvs ! index))") auto
    have lrest: "2 * k \<le> length rest" using len2 gs by simp
    have "None \<notin> set (gets (pvs ! index))"
      using Cons.prems(6) idx by simp
    then obtain x1 x2 where x: "v1 = Some x1" "v2 = Some x2"
      unfolding gs by (cases v1; cases v2) auto
    show ?thesis
    proof (cases "x1 = 0")
      case True
      have "\<exists>wt' pvs'. poll vs tol ps wt (pvs[index := (pvs ! index)\<lparr>gets := v2 # rest\<rparr>])
             = Some (Inr (wt', pvs'))
           \<and> length pvs' = length pvs \<and> length wt' = length wt \<and> \<not> wt' ! i
           \<and> (\<forall>v\<in>set (gets (pvs' ! i)). v = Some 0)
           \<and> (\<forall>j<length pvs. None \<notin> set (gets (pvs' ! j)))
           \<and> (\<forall>j<length pvs. 2 * k \<le> length (gets (pvs' ! j)))"
        by (rule step [OF refl refl Cons.prems(4)]) (use gs lrest in auto)
      then show ?thesis using p False gs x True
        by (simp add: PV_get_def truthy_def)
    next
      case nz: False
      then have ni: "index \<noteq> i" using Cons.prems(5) gs x by auto
      have iv: "index < length vs" using idx Cons.prems(9) by simp
      have "\<exists>wt' pvs'. poll vs tol ps w (pvs[index := (pvs ! index)\<lparr>gets := rest\<rparr>])
             = Some (Inr (wt', pvs'))
           \<and> length pvs' = length pvs \<and> length wt' = length wt \<and> \<not> wt' ! i
           \<and> (\<forall>v\<in>set (gets (pvs' ! i)). v = Some 0)
           \<and> (\<forall>j<length pvs. None \<notin> set (gets (pvs' ! j)))
           \<and> (\<forall>j<length pvs. 2 * k \<le> length (gets (pvs' ! j)))"
        if "w = wt \<or> w = wt[index := True]" for w
        by (rule step [OF refl]) (use that ni Cons.prems(4) gs lrest in auto)
      then show ?thesis using p False gs x nz iv
        by (simp add: PV_get_def truthy_def)
    qed
  qed
qed

text \<open>
  The \<open>while\<close> loop under the same invariant, when test \<open>k\<close> of its condition is the first
  to find the timeout elapsed: it ends with the flag of channel \<open>i\<close> false.
\<close>

lemma write_loop_zero_channel:
  assumes "k < length clock"
    and "\<forall>j<k. clock ! j - t0 < timeout"
    and "\<not> clock ! k - t0 < timeout"
    and "length wt = length pvs"
    and "i < length pvs"
    and "\<not> wt ! i"
    and "\<forall>v\<in>set (gets (pvs ! i)). v = Some 0"
    and "\<forall>j<length pvs. None \<notin> set (gets (pvs ! j))"
    and "\<forall>j<length pvs. 2 * k \<le> length (gets (pvs ! j))"
    and "length pvs \<le> length vs"
  shows "write_loop vs tol timeout t0 clock wt pvs = Some (Inl convergence_error)"
  using assms
proof (induction clock arbitrary: k wt pvs)
  case Nil
  then show ?case by simp
next
  case (Cons t clock)
  have na: "\<not> list_all (\<lambda>reached. reached) wt"
    using Cons.prems(4,5,6) by (simp add: not_all_within)
  show ?case
  proof (cases k)
    case 0
    then show ?thesis using Cons.prems(3) na by simp
  next
    case (Suc k')
    have t: "t - t0 < timeout" using Cons.prems(2) Suc by auto
    let ?ps = "zip [0..<length pvs] wt"
    have mf: "map fst ?ps = [0..<length pvs]"
      using Cons.prems(4) by (simp add: map_fst_zip)
    have "\<exists>wt' pvs'. poll vs tol ?ps wt pvs = Some (Inr (wt', pvs'))
           \<and> length pvs' = length pvs \<and> length wt' = length wt \<and> \<not> wt' ! i
           \<and> (\<forall>v\<in>set (gets (pvs' ! i)). v = Some 0)
           \<and> (\<forall>j<length pvs. None \<notin> set (gets (pvs' ! j)))
           \<and> (\<forall>j<length pvs. 2 * k' \<le> length (gets (pvs' ! j)))"
    proof (rule poll_zero_channel)
      show "distinct (map fst ?ps)" using mf by simp
      show "\<forall>p\<in>set ?ps. fst p < length pvs \<and> (fst p = i \<longrightarrow> \<not> snd p)"
        using Cons.prems(4,6) by (auto simp: in_set_zip)
      show "\<forall>p\<in>set ?ps. 2 * Suc k' \<le> length (gets (pvs ! fst p))"
        using Cons.prems(9) Suc by (auto simp: in_set_zip)
      show "\<forall>j<length pvs. 2 * k' \<le> length (gets (pvs ! j))"
      proof (intro allI impI)
        fix j assume "j < length pvs"
        then have "2 * k \<le> length (gets (pvs ! j))" using Cons.prems(9) by simp
        then show "2 * k' \<le> length (gets (pvs ! j))" using Suc by simp
      qed
    qed (use Cons.prems in simp_all)
    then obtain wt' pvs' where p: "poll vs tol ?ps wt pvs = Some (Inr (wt', pvs'))"
      and l: "length pvs' = length pvs" "length wt' = length wt" and w: "\<not> wt' ! i"
      and z: "\<forall>v\<in>set (gets (pvs' ! i)). v = Some 0"
      and n: "\<forall>j<length pvs. None \<notin> set (gets (pvs' ! j))"
      and g: "\<forall>j<length pvs. 2 * k' \<le> length (gets (pvs' ! j))"
      by blast
    have "write_loop vs tol timeout t0 clock wt' pvs' = Some (Inl convergence_error)"
    proof (rule Cons.IH [of k'])
      show "k' < length clock" using Cons.prems(1) Suc by simp
      show "\<forall>j<k'. clock ! j - t0 < timeout" using Cons.prems(2) Suc by auto
      show "\<not> clock ! k' - t0 < timeout" using Cons.prems(3) Suc by simp
      show "length wt' = length pvs'" using l Cons.prems(4) by simp
      show "i < length pvs'" using l Cons.prems(5) by simp
      show "\<not> wt' ! i" by (rule w)
      show "\<forall>v\<in>set (gets (pvs' ! i)). v = Some 0" by (rule z)
      show "\<forall>j<length pvs'. None \<notin> set (gets (pvs' ! j))" using n l by simp
      show "\<forall>j<length pvs'. 2 * k' \<le> length (gets (pvs' ! j))" using g l by simp
      show "length pvs' \<le> length vs" using l Cons.prems(10) by simp
    qed
    then show ?thesis using t na p by simp
  qed
qed

text \<open>
  Claim C9. A polled read of exactly zero is handled as a read of no value: the visit of
  the channel ends there, with its flag unchanged and the next reads of its trace left for
  the next cycle. So when channel \<open>i\<close> has target zero and reads zero at every poll, the
  tolerance condition holds of each of its reads and still \<open>write\<close> raises the convergence
  error once the timeout has elapsed (here: no read of any channel is \<open>None\<close>, every
  channel has a target, test \<open>k\<close> of the loop condition is the first to find the timeout
  elapsed and the traces are long enough for the \<open>k\<close> cycles before it).
\<close>

theorem write_zero_readback_times_out:
  assumes "convert_to_list target = Some vs"
    and "i < length pvs"
    and "length pvs \<le> length vs"
    and "vs ! i = 0"
    and "0 < tolerance"
    and "\<forall>v\<in>set (gets (pvs ! i)). v = Some 0"
    and "\<forall>j<length pvs. None \<notin> set (gets (pvs ! j))"
    and "\<forall>j<length pvs. 2 * k \<le> length (gets (pvs ! j))"
    and "k < length clock"
    and "\<forall>j<k. clock ! j - t0 < timeout"
    and "\<not> clock ! k - t0 < timeout"
  shows "(\<forall>rest wt qs ps. gets (qs ! i) = Some 0 # rest \<longrightarrow>
            poll vs tolerance ((i, False) # ps) wt qs
              = poll vs tolerance ps wt (qs[i := (qs ! i)\<lparr>gets := rest\<rparr>]))
       \<and> (\<forall>v\<in>set (gets (pvs ! i)). \<exists>x. v = Some x \<and> \<bar>x - vs ! i\<bar> < tolerance)
       \<and> EpicsWriter_write pvs target tolerance timeout (t0 # clock) = Some (Inl convergence_error)"
proof (intro conjI)
  show "\<forall>rest wt qs ps. gets (qs ! i) = Some 0 # rest \<longrightarrow>
            poll vs tolerance ((i, False) # ps) wt qs
              = poll vs tolerance ps wt (qs[i := (qs ! i)\<lparr>gets := rest\<rparr>])"
    by (simp add: PV_get_def truthy_def)
  show "\<forall>v\<in>set (gets (pvs ! i)). \<exists>x. v = Some x \<and> \<bar>x - vs ! i\<bar> < tolerance"
    using assms(4,5,6) by auto
  have "write_loop vs tolerance timeout t0 clock (replicate (length pvs) False) (put_values pvs vs)
          = Some (Inl convergence_error)"
  proof (rule write_loop_zero_channel [of k _ _ _ _ _ i])
    show "\<forall>j<length (put_values pvs vs). None \<notin> set (gets (put_values pvs vs ! j))"
      using assms(7) by (simp add: length_put_values gets_put_values)
    show "\<forall>j<length (put_values pvs vs). 2 * k \<le> length (gets (put_values pvs vs ! j))"
      using assms(8) by (simp add: length_put_values gets_put_values)
  qed (use assms in \<open>simp_all add: length_put_values gets_put_values\<close>)
  then show "EpicsWriter_write pvs target tolerance timeout (t0 # clock) = Some (Inl convergence_error)"
    using assms(1) by (simp add: EpicsWriter_write_def)
qed

theorem write_zero_readback_times_out_witness:
  "EpicsWriter_write
     [\<lparr>puts = [], gets = [Some 7, Some 7, Some 1, Some 1]\<rparr>,
      \<lparr>puts = [], gets = [Some 0, Some 0, Some 0, Some 0]\<rparr>]
     (ListArg [7, 0]) (1 / 100000) 5 [10, 11, 12, 16]
   = Some (Inl convergence_error)"
proof -
  have "EpicsWriter_write
     [\<lparr>puts = [], gets = [Some 7, Some 7, Some 1, Some 1]\<rparr>,
      \<lparr>puts = [], gets = [Some 0, Some 0, Some 0, Some 0]\<rparr>]
     (ListArg [7, 0]) (1 / 100000) 5 (10 # [11, 12, 16])
   = Some (Inl convergence_error)"
    using write_zero_readback_times_out [where i = "Suc 0" and k = "Suc (Suc 0)" and vs = "[7, 0]"
       and target = "ListArg [7, 0]" and tolerance = "1 / 100000" and timeout = 5 and ?t0.0 = 10
       and clock = "[11, 12, 16]"
       and pvs = "[\<lparr>puts = [], gets = [Some 7, Some 7, Some 1, Some 1]\<rparr>,
      \<lparr>puts = [], gets = [Some 0, Some 0, Some 0, Some 0]\<rparr>]"]
    by (simp add: less_Suc_eq all_conj_distrib)
  then show ?thesis by simp
qed

text \<open>The first channel keeps its trace of reads when the targets are written.\<close>

lemma gets_put_values_hd: "pvs \<noteq> [] \<Longrightarrow> gets (put_values pvs vs ! 0) = gets (pvs ! 0)"
  using gets_put_values [of 0 pvs vs] by simp

text \<open>
  Claim C10. When the first read of a channel gives a value (and not zero), the value
  compared with the target is the result of a second \<open>get()\<close>, whatever the first one was:
  the flag is set exactly when the second value is within the tolerance. When the second
  \<open>get()\<close> gives \<open>None\<close>, the subtraction raises a \<open>TypeError\<close>, which leaves the loop and
  \<open>write\<close> (shown for the first channel of the writer, in the first cycle), instead of
  the cycle going on with the channel not yet converged.
\<close>

theorem poll_compares_second_read:
  assumes "gets (pvs ! index) = Some v # second # rest"
    and "v \<noteq> 0"
    and "index < length vs"
  shows "(second = None \<longrightarrow> poll vs tol ((index, False) # ps) wt pvs = Some (Inl TypeError))
       \<and> (\<forall>w. second = Some w \<longrightarrow>
             poll vs tol ((index, False) # ps) wt pvs
               = poll vs tol ps (if \<bar>w - vs ! index\<bar> < tol then wt[index := True] else wt)
                   (pvs[index := (pvs ! index)\<lparr>gets := rest\<rparr>]))
       \<and> (second = None \<and> index = 0 \<and> pvs \<noteq> [] \<and> t1 - t0 < timeout \<longrightarrow>
             EpicsWriter_write pvs (ListArg vs) tol timeout (t0 # t1 # clock) = Some (Inl TypeError))"
proof (intro conjI impI allI)
  assume "second = None"
  then show "poll vs tol ((index, False) # ps) wt pvs = Some (Inl TypeError)"
    using assms by (simp add: PV_get_def truthy_def)
next
  fix w assume "second = Some w"
  then show "poll vs tol ((index, False) # ps) wt pvs
               = poll vs tol ps (if \<bar>w - vs ! index\<bar> < tol then wt[index := True] else wt)
                   (pvs[index := (pvs ! index)\<lparr>gets := rest\<rparr>])"
    using assms by (simp add: PV_get_def truthy_def)
next
  assume a: "second = None \<and> index = 0 \<and> pvs \<noteq> [] \<and> t1 - t0 < timeout"
  then obtain pv pvs' where pvs: "pvs = pv # pvs'" by (cases pvs) auto
  have g: "gets (put_values pvs vs ! 0) = Some v # None # rest"
    using a assms(1) by (simp add: gets_put_values_hd)
  have "[0..<length (put_values pvs vs)] = 0 # [Suc 0..<Suc (length pvs')]"
    using pvs by (simp add: length_put_values upt_conv_Cons del: upt_Suc)
  then obtain ps' where z: "zip [0..<length (put_values pvs vs)] (replicate (length pvs) False)
         = (0, False) # ps'"
    using pvs by simp
  have "poll vs tol ((0, False) # ps') (replicate (length pvs) False) (put_values pvs vs)
          = Some (Inl TypeError)"
    using g assms(2,3) a by (simp add: PV_get_def truthy_def)
  then show "EpicsWriter_write pvs (ListArg vs) tol timeout (t0 # t1 # clock) = Some (Inl TypeError)"
    using a pvs z by (simp add: EpicsWriter_write_def del: poll.simps)
qed

theorem poll_compares_second_read_witness:
  "EpicsWriter_write [\<lparr>puts = [], gets = [Some 3, None, Some 3, Some 3]\<rparr>] (ListArg [3])
       (1 / 100000) 5 [10, 11, 12] = Some (Inl TypeError)
   \<and> poll [3] (1 / 100000) [(0, False)] [False] [\<lparr>puts = [], gets = [Some 8, Some 3]\<rparr>]
       = Some (Inr ([True], [\<lparr>puts = [], gets = []\<rparr>]))
   \<and> poll [3] (1 / 100000) [(0, False)] [False] [\<lparr>puts = [], gets = [Some 3, Some 8]\<rparr>]
       = Some (Inr ([False], [\<lparr>puts = [], gets = []\<rparr>]))"
  using poll_compares_second_read [where pvs = "[\<lparr>puts = [], gets = [Some 3, None, Some 3, Some 3]\<rparr>]"
      and index = 0 and v = 3 and second = None and rest = "[Some 3, Some 3]" and vs = "[3]"
      and ?t0.0 = 10 and ?t1.0 = 11 and timeout = 5 and tol = "1 / 100000" and clock = "[12]"]
    poll_compares_second_read [where pvs = "[\<lparr>puts = [], gets = [Some 8, Some 3]\<rparr>]"
      and index = 0 and v = 8 and second = "Some 3" and rest = "[]" and vs = "[3]"
      and tol = "1 / 100000" and ps = "[]" and wt = "[False]"]
    poll_compares_second_read [where pvs = "[\<lparr>puts = [], gets = [Some 3, Some 8]\<rparr>]"
      and index = 0 and v = 3 and second = "Some 8" and rest = "[]" and vs = "[3]"
      and tol = "1 / 100000" and ps = "[]" and wt = "[False]"]
  by simp

text \<open>
  Claim C4, at the input where the code leaves it. One channel is written the target zero
  and every read of it gives zero, so that its first read after the write equals the
  target: \<open>write\<close> raises the convergence error when the timeout has elapsed. With the
  target three and every read three, \<open>write\<close> returns.
\<close>

theorem write_zero_target_raises:
  "EpicsWriter_write [\<lparr>puts = [], gets = [Some 0, Some 0, Some 0, Some 0]\<rparr>] (Scalar 0)
       (1 / 100000) 5 [10, 11, 12, 16] = Some (Inl convergence_error)
   \<and> EpicsWriter_write [\<lparr>puts = [], gets = [Some 3, Some 3, Some 3, Some 3]\<rparr>] (Scalar 3)
       (1 / 100000) 5 [10, 11, 12, 16] = Some (Inr ())"
  by (simp add: EpicsWriter_write_def PV_get_def PV_put_def truthy_def)

section \<open>Pieces of generators\<close>

text \<open>What a piece that ended normally tells about its parts.\<close>

lemma seq_Inr:
  assumes "seq first second s = Inr (out, s')"
  obtains out1 s1 out2 where "first s = Inr (out1, s1)" and "second s1 = Inr (out2, s')"
    and "out = out1 @ out2"
  using assms by (auto simp: seq_def split: sum.splits)

lemma assign_Inr:
  assumes "assign f s = Inr (out, s')"
  shows "f s = Inr s' \<and> out = []"
  using assms by (auto simp: assign_def split: sum.splits)

lemma yield_Inr:
  assumes "yield f s = Inr (out, s')"
  shows "s' = s \<and> out = [f s]"
  using assms by (auto simp: yield_def)

lemma for_in_Inr:
  assumes "for_in iterable body s = Inr r"
  obtains xs where "iterable = Inr xs" and "for_each xs body s = Inr r"
  using assms by (auto simp: for_in_def split: sum.splits)

text \<open>
  A relation between the local variables before and after, reflexive and transitive,
  that every normal run of the body satisfies, holds across the loop.
\<close>

lemma for_each_relates:
  assumes "\<And>s. R s s"
    and "\<And>s t u. R s t \<Longrightarrow> R t u \<Longrightarrow> R s u"
    and "\<And>x s out s'. body x s = Inr (out, s') \<Longrightarrow> R s s'"
  shows "for_each xs body s = Inr (out, s') \<Longrightarrow> R s s'"
proof (induction xs arbitrary: s out)
  case Nil
  then show ?case using assms(1) by simp
next
  case (Cons x xs)
  from Cons.prems obtain out1 s1 out2 where
    "body x s = Inr (out1, s1)" and "for_each xs body s1 = Inr (out2, s')"
    by (auto elim: seq_Inr)
  then show ?case using assms(2,3) Cons.IH by blast
qed


section \<open>The linear positioners\<close>

text \<open>\<open>range(n)\<close> counts from zero to \<open>n - 1\<close>.\<close>

lemma py_range_upto: "py_range 0 n 1 = map int [0..<nat n]"
  by (simp add: py_range_def)

lemma length_py_range: "length (py_range 0 n 1) = nat n"
  by (simp add: py_range_def)







section \<open>The vector positioners\<close>

text \<open>\<open>range(n - 2, 0, -1)\<close> counts down from \<open>n - 2\<close> to one.\<close>

lemma py_range_down: "py_range (n - 2) 0 (- 1) = map (\<lambda>k. n - 2 - int k) [0..<nat (n - 2)]"
  by (simp add: py_range_def)

text \<open>
  The \<open>for\<close> loop of the zigzag vector positioner, entered when the iterator has given
  \<open>j\<close> items of the current round: it yields the waypoints at the items that follow in the
  cycle, as many as the loop has rounds.
\<close>

lemma cycle_run:
  assumes "saved \<noteq> []"
    and "\<forall>i\<in>set saved. py_item (positions self) i = Inr (f i)"
  shows "j \<le> length saved \<Longrightarrow>
         \<exists>st. for_each xs (\<lambda>x. emit (next_position self)) (drop j saved, saved)
           = Inr (map (\<lambda>k. f (saved ! ((j + k) mod length saved))) [0..<length xs], st)"
proof (induction xs arbitrary: j)
  case Nil
  then show ?case by simp
next
  case (Cons x xs)
  let ?L = "length saved"
  have L: "0 < ?L" using assms(1) by simp
  define j' where "j' = (if j < ?L then j else 0)"
  have j': "j' < ?L" "j' = j mod ?L" using Cons.prems L by (auto simp: j'_def)
  have nxt: "cycle_next (drop j saved, saved) = Inr (saved ! j', (drop (Suc j') saved, saved))"
  proof (cases "j < ?L")
    case True
    then show ?thesis
      by (simp add: cycle_next_def j'_def Cons_nth_drop_Suc [symmetric])
  next
    case False
    then have "drop j saved = []" by simp
    moreover obtain y ys where "saved = y # ys" using assms(1) by (cases saved) auto
    ultimately show ?thesis using False by (simp add: cycle_next_def j'_def)
  qed
  have "saved ! j' \<in> set saved" using j' by simp
  then have it: "py_item (positions self) (saved ! j') = Inr (f (saved ! j'))"
    using assms(2) by blast
  have "Suc j' \<le> ?L" using j' by simp
  from Cons.IH [OF this] obtain st where
    r: "for_each xs (\<lambda>x. emit (next_position self)) (drop (Suc j') saved, saved)
           = Inr (map (\<lambda>k. f (saved ! ((Suc j' + k) mod ?L))) [0..<length xs], st)"
    by blast
  have idx: "Suc (j' + k) mod ?L = Suc (j + k) mod ?L" for k
  proof -
    have "(j' + k) mod ?L = (j + k) mod ?L"
      unfolding j'(2) by (rule mod_add_left_eq)
    then have "Suc ((j' + k) mod ?L) mod ?L = Suc ((j + k) mod ?L) mod ?L" by simp
    then show ?thesis by (simp only: mod_Suc_eq)
  qed
  have "for_each (x # xs) (\<lambda>x. emit (next_position self)) (drop j saved, saved)
          = Inr (f (saved ! j') # map (\<lambda>k. f (saved ! ((j + Suc k) mod ?L))) [0..<length xs], st)"
    using nxt it r by (simp add: seq_def emit_def next_position_def idx)
  moreover have "map (\<lambda>k. f (saved ! ((j + k) mod ?L))) [0..<length (x # xs)]
       = f (saved ! j') # map (\<lambda>k. f (saved ! ((j + Suc k) mod ?L))) [0..<length xs]"
    using j'(2) by (simp add: map_upt_Suc del: upt_Suc)
  ultimately show ?case by auto
qed

text \<open>
  The items of one round of \<open>indexes\<close> for \<open>N\<close> waypoints: up from zero to \<open>N - 1\<close>,
  then down from \<open>N - 2\<close> to one; each is an index of a waypoint.
\<close>

lemma chain_nth:
  assumes "0 < N" and "r < N + (N - 2)"
  shows "(py_range 0 (int N) 1 @ py_range (int N - 2) 0 (- 1)) ! r
           = (if r < N then int r else 2 * int N - 2 - int r)"
  using assms by (auto simp: py_range_upto py_range_down nth_append)

lemma chain_length:
  "length (py_range 0 (int N) 1 @ py_range (int N - 2) 0 (- 1)) = N + (N - 2)"
  by (simp add: py_range_upto py_range_down)

lemma chain_items:
  assumes "i \<in> set (py_range 0 (int (length ps)) 1 @ py_range (int (length ps) - 2) 0 (- 1))"
  shows "py_item ps i = Inr (ps ! nat i)"
  using assms by (auto simp: py_range_upto py_range_down py_item_def)

text \<open>What the constructor leaves in the attributes.\<close>

lemma positions_init:
  "positions (fst (VectorPositioner_init ps p offs H)) = ps"
  "n_positions (fst (VectorPositioner_init ps p offs H)) = int (length ps)"
  "passes (fst (VectorPositioner_init ps p offs H)) = p"
  by (simp_all add: VectorPositioner_init_def)

text \<open>
  The offsets are added to the rows in place, once for every item of \<open>positions\<close>: a row
  that is there twice gets them twice. The rows here are the object \<open>0\<close>, twice, holding
  \<open>[1, 2]\<close>, and the offsets the object \<open>1\<close>, holding \<open>[1, 1]\<close>.
\<close>

lemma init_offsets_shared_row:
  "objects (snd (VectorPositioner_init [0, 0] 1 (Some 1)
      \<lparr>objects = (\<lambda>_. [])(0 := [1, 2], 1 := [1, 1]), next_ref = 2\<rparr>)) 0 = [3, 4]"
  by (simp add: VectorPositioner_init_def set_items_def)

text \<open>
  The whole sequence of the zigzag vector positioner on at least one waypoint: item \<open>k\<close>
  is the waypoint at the ping-pong index of \<open>k\<close>.
\<close>

lemma zigzag_vector_run:
  assumes "ps \<noteq> []"
  shows "ZigZagVectorPositioner_get_generator (fst (VectorPositioner_init ps p offs H))
           = Inr (map (\<lambda>k. ps !
                     (let r = k mod (max 1 (2 * length ps - 2))
                      in if r < length ps then r else 2 * length ps - 2 - r))
                   [0..<nat (int (length ps) + (p - 1) * (int (length ps) - 1))])"
proof -
  let ?self = "fst (VectorPositioner_init ps p offs H)"
  let ?N = "length ps"
  let ?chain = "py_range 0 (int ?N) 1 @ py_range (int ?N - 2) 0 (- 1)"
  let ?f = "\<lambda>i. ps ! nat i"
  have N: "0 < ?N" using assms by simp
  have L: "length ?chain = max 1 (2 * ?N - 2)"
    using N by (simp only: chain_length)
  have ne: "?chain \<noteq> []" using L by auto
  have items: "\<forall>i\<in>set ?chain. py_item (positions ?self) i = Inr (?f i)"
    using chain_items [of _ ps] by (simp only: positions_init) blast
  from cycle_run [OF ne items, of 0 "py_range 0 (n_indexes ?self) 1"]
  obtain st where r: "for_each (py_range 0 (n_indexes ?self) 1) (\<lambda>x. emit (next_position ?self))
              (?chain, ?chain)
      = Inr (map (\<lambda>k. ?f (?chain ! (k mod length ?chain))) [0..<nat (n_indexes ?self)], st)"
    by (auto simp: length_py_range)
  have "?f (?chain ! (k mod length ?chain))
      = ps ! (let r = k mod (max 1 (2 * ?N - 2))
                           in if r < ?N then r else 2 * ?N - 2 - r)" for k
  proof -
    define r where "r = k mod (max 1 (2 * ?N - 2))"
    have "r < max 1 (2 * ?N - 2)" unfolding r_def by (rule mod_less_divisor) simp
    then have rl: "r < ?N + (?N - 2)" using N by linarith
    have "nat (?chain ! r) = (if r < ?N then r else 2 * ?N - 2 - r)"
      using chain_nth [OF N rl] rl by auto
    then show ?thesis unfolding L Let_def r_def [symmetric] by simp
  qed
  then have "map (\<lambda>k. ?f (?chain ! (k mod length ?chain))) [0..<nat (n_indexes ?self)]
     = map (\<lambda>k. ps ! (let r = k mod (max 1 (2 * ?N - 2))
                           in if r < ?N then r else 2 * ?N - 2 - r)) [0..<nat (n_indexes ?self)]"
    by simp
  with r have "ZigZagVectorPositioner_get_generator ?self
      = Inr (map (\<lambda>k. ps ! (let r = k mod (max 1 (2 * ?N - 2))
                           in if r < ?N then r else 2 * ?N - 2 - r)) [0..<nat (n_indexes ?self)])"
    by (simp add: ZigZagVectorPositioner_get_generator_def ZigZagVectorPositioner_body_def
        run_def seq_def assign_def for_in_def cycle_def positions_init)
  then show ?thesis by (simp add: n_indexes_def positions_init)
qed

text \<open>
  Claim C6. A zigzag vector positioner built on \<open>n \<ge> 1\<close> waypoints with \<open>p \<ge> 1\<close> passes
  yields exactly \<open>n + (p - 1) * (n - 1)\<close> vectors, and vector \<open>k\<close> is the waypoint whose index
  is \<open>r\<close> when \<open>r < n\<close> and \<open>2 * n - 2 - r\<close> otherwise, \<open>r\<close> being \<open>k\<close> modulo the period
  \<open>2 * n - 2\<close> (one for a single waypoint): up through all waypoints, down to the second,
  and so on, the waypoint at which two passes meet coming once. For three waypoints and two
  passes the order is first, second, third, second, first. The vector yielded is the row
  object at that index of \<open>positions\<close>, whatever the heap holds, with or without offsets.
\<close>

theorem ZigZagVectorPositioner_sequence:
  "(\<forall>ps p offs H. ps \<noteq> [] \<and> 1 \<le> p \<longrightarrow>
      (\<exists>xs. ZigZagVectorPositioner_get_generator (fst (VectorPositioner_init ps p offs H)) = Inr xs
         \<and> int (length xs) = int (length ps) + (p - 1) * (int (length ps) - 1)
         \<and> (\<forall>k<length xs. xs ! k = positions (fst (VectorPositioner_init ps p offs H)) !
               (let r = k mod (max 1 (2 * length ps - 2))
                in if r < length ps then r else 2 * length ps - 2 - r))))
   \<and> (\<forall>a b c H. ZigZagVectorPositioner_get_generator (fst (VectorPositioner_init [a, b, c] 2 None H))
         = Inr [a, b, c, b, a])"
proof (intro conjI allI impI)
  fix ps :: "ref list" and p :: int and offs H
  assume a: "ps \<noteq> [] \<and> 1 \<le> p"
  then have "0 \<le> (p - 1) * (int (length ps) - 1)" by (cases ps) simp_all
  then have "0 \<le> int (length ps) + (p - 1) * (int (length ps) - 1)" by linarith
  then show "\<exists>xs. ZigZagVectorPositioner_get_generator (fst (VectorPositioner_init ps p offs H)) = Inr xs
         \<and> int (length xs) = int (length ps) + (p - 1) * (int (length ps) - 1)
         \<and> (\<forall>k<length xs. xs ! k = positions (fst (VectorPositioner_init ps p offs H)) !
               (let r = k mod (max 1 (2 * length ps - 2))
                in if r < length ps then r else 2 * length ps - 2 - r))"
    using a by (simp add: zigzag_vector_run positions_init)
next
  fix a b c :: ref and H
  have r: "py_range 0 3 1 = [0, 1, 2]" "py_range 1 0 (- 1) = [1]" "py_range 0 5 1 = [0, 1, 2, 3, 4]"
    by (simp_all add: py_range_def upt_conv_Cons)
  show "ZigZagVectorPositioner_get_generator (fst (VectorPositioner_init [a, b, c] 2 None H))
         = Inr [a, b, c, b, a]"
    by (simp add: ZigZagVectorPositioner_get_generator_def ZigZagVectorPositioner_body_def
        VectorPositioner_init_def n_indexes_def run_def seq_def assign_def for_in_def cycle_def
        emit_def next_position_def cycle_next_def py_item_def r)
qed

theorem ZigZagVectorPositioner_sequence_witness:
  "\<exists>self H' xs.
      VectorPositioner_init [0, 1, 2, 3] 3 (Some 4)
        \<lparr>objects = (\<lambda>_. [])(0 := [0, 0], 1 := [1, 5], 2 := [2, 7], 3 := [3, 9], 4 := [10, 20]),
         next_ref = 5\<rparr> = (self, H')
      \<and> ZigZagVectorPositioner_get_generator self = Inr xs
      \<and> length xs = 10
      \<and> xs ! 3 = 3 \<and> xs ! 4 = 2 \<and> xs ! 6 = 0 \<and> xs ! 7 = 1
      \<and> objects H' (xs ! 3) = [13, 29] \<and> objects H' (xs ! 4) = [12, 27]
      \<and> objects H' (xs ! 6) = [10, 20] \<and> objects H' (xs ! 7) = [11, 25]"
proof -
  let ?ps = "[0, 1, 2, 3] :: ref list"
  let ?H = "\<lparr>objects = (\<lambda>_. [])(0 := [0, 0], 1 := [1, 5], 2 := [2, 7], 3 := [3, 9], 4 := [10, 20]),
            next_ref = 5\<rparr>"
  let ?self = "fst (VectorPositioner_init ?ps 3 (Some 4) ?H)"
  let ?H' = "snd (VectorPositioner_init ?ps 3 (Some 4) ?H)"
  have "\<exists>xs. ZigZagVectorPositioner_get_generator ?self = Inr xs
         \<and> int (length xs) = int (length ?ps) + (3 - 1) * (int (length ?ps) - 1)
         \<and> (\<forall>k<length xs. xs ! k = positions ?self !
               (let r = k mod (max 1 (2 * length ?ps - 2))
                in if r < length ?ps then r else 2 * length ?ps - 2 - r))"
    by (rule ZigZagVectorPositioner_sequence [THEN conjunct1, rule_format]) simp
  then obtain xs where x: "ZigZagVectorPositioner_get_generator ?self = Inr xs"
    and l: "int (length xs) = int (length ?ps) + (3 - 1) * (int (length ?ps) - 1)"
    and c: "\<forall>k<length xs. xs ! k = positions ?self !
               (let r = k mod (max 1 (2 * length ?ps - 2))
                in if r < length ?ps then r else 2 * length ?ps - 2 - r)"
    by (elim exE conjE)
  have l': "length xs = 10" using l by simp
  have p: "positions ?self = ?ps" by (simp add: VectorPositioner_init_def)
  have i: "xs ! 3 = 3" "xs ! 4 = 2" "xs ! 6 = 0" "xs ! 7 = 1"
    using c [rule_format, of 3] c [rule_format, of 4] c [rule_format, of 6] c [rule_format, of 7]
    unfolding p l' by (simp_all add: Let_def)
  have h: "objects ?H' 3 = [13, 29]" "objects ?H' 2 = [12, 27]"
    "objects ?H' 0 = [10, 20]" "objects ?H' 1 = [11, 25]"
    by (simp_all add: VectorPositioner_init_def set_items_def)
  have v: "objects ?H' (xs ! 3) = [13, 29]" "objects ?H' (xs ! 4) = [12, 27]"
    "objects ?H' (xs ! 6) = [10, 20]" "objects ?H' (xs ! 7) = [11, 25]"
    unfolding i by (rule h)+
  have "VectorPositioner_init ?ps 3 (Some 4) ?H = (?self, ?H')" by simp
  with x l' i v show ?thesis by blast
qed

section \<open>The area positioners\<close>

text \<open>
  Claim C3, as the code has it. A step list whose first item is neither an \<open>int\<close> nor a
  \<open>float\<close> raises nothing in any constructor that takes steps: the object is returned with
  \<open>n_steps\<close> and \<open>step_size\<close> not assigned. For \<open>LinearPositioner([0], [10], steps)\<close> with
  such a step the failure comes only when the generator is run, as an \<open>AttributeError\<close>.
\<close>

theorem init_ignores_other_step_type:
  "LinearPositioner_init start_arg end_arg (PyOther # rest) passes_arg offsets_arg
     = Inr \<lparr>offsets = offsets_arg, passes = passes_arg,
            end' = add_offsets end_arg offsets_arg, start = add_offsets start_arg offsets_arg,
            n_steps = None, step_size = None\<rparr>
   \<and> AreaPositioner_init start_arg end_arg (PyOther # rest) passes_arg offsets_arg
     = Inr \<lparr>offsets = offsets_arg, passes = passes_arg,
            end' = add_offsets end_arg offsets_arg, start = add_offsets start_arg offsets_arg,
            n_steps = None, step_size = None, n_axis = length start_arg\<rparr>
   \<and> MultiAreaPositioner_init starts_arg ends_arg ((PyOther # line) # lines) passes_arg offsets_lines
     = Inr \<lparr>offsets = offsets_lines, passes = passes_arg,
            end' = add_offsets_lines ends_arg offsets_lines,
            start = add_offsets_lines starts_arg offsets_lines,
            n_steps = None, step_size = None, n_axis = length starts_arg\<rparr>
   \<and> LinearPositioner_init [0] [10] [PyOther] 1 None
     = Inr \<lparr>offsets = None, passes = 1, end' = [10], start = [0],
            n_steps = None, step_size = None\<rparr>
   \<and> LinearPositioner_get_generator
       \<lparr>offsets = None, passes = 1, end' = [10], start = [0], n_steps = None, step_size = None\<rparr>
     = Inl AttributeError"
  by (simp add: LinearPositioner_init_def AreaPositioner_init_def MultiAreaPositioner_init_def
      add_offsets_def LinearPositioner_get_generator_def LinearPositioner_body_def
      run_def for_in_def seq_def assign_def yield_def range_of_def attribute_def py_range_def)

text \<open>A step along an axis leaves the directions; the inversion changes one of them.\<close>

lemma zigzag_step_axis_directions:
  "zigzag_step_axis sizes k s = Inr s' \<Longrightarrow> fst s' = fst s"
  by (auto simp: zigzag_step_axis_def split: sum.splits option.splits)

lemma invert_direction_Inr:
  "invert_direction k s = Inr s' \<Longrightarrow>
     k < length (fst s) \<and> fst s' = (fst s)[k := - (fst s ! k)] \<and> snd s' = snd s"
  by (auto simp: invert_direction_def item_def split: sum.splits if_splits)

text \<open>
  A run of the zigzag \<open>scan_axis\<close> on axis \<open>k\<close> that ends normally keeps the number of
  directions and the directions of the axes before \<open>k\<close>, and inverts the direction of
  axis \<open>k\<close> when there is such an axis. By induction on the calls: the runs on axis
  \<open>k + 1\<close> inside it keep the directions up to \<open>k\<close>, the steps keep all of them, and the
  last statement inverts the one of \<open>k\<close>.
\<close>

lemma zigzag_scan_directions:
  "ZigZagAreaPositioner_scan_axis self k s = Inr (out, s') \<Longrightarrow>
     length (fst s') = length (fst s) \<and> (\<forall>j<k. fst s' ! j = fst s ! j)
     \<and> (k < n_axis self \<longrightarrow> k < length (fst s) \<and> fst s' ! k = - (fst s ! k))"
proof (induction self k arbitrary: s out s' rule: ZigZagAreaPositioner_scan_axis.induct)
  case (1 self k)
  show ?case
  proof (cases "k < n_axis self")
    case False
    then have "ZigZagAreaPositioner_scan_axis self k = skip"
      by (subst ZigZagAreaPositioner_scan_axis.simps) simp
    then show ?thesis using "1.prems" False
      by (simp add: skip_def)
  next
    case True
    let ?R = "\<lambda>(s :: int list \<times> real list) (t :: int list \<times> real list).
                length (fst t) = length (fst s) \<and> (\<forall>j<Suc k. fst t ! j = fst s ! j)"
    have inner: "?R u t" if "ZigZagAreaPositioner_scan_axis self (k + 1) u = Inr (o', t)" for u o' t
      using "1.IH"(1) [OF _ that] True by simp
    have unfold: "ZigZagAreaPositioner_scan_axis self k =
        seq (ZigZagAreaPositioner_scan_axis self (k + 1))
       (seq (for_in (axis_range (n_steps self) k) (\<lambda>_.
               seq (assign (zigzag_step_axis (step_size self) k))
              (seq (yield snd) (ZigZagAreaPositioner_scan_axis self (k + 1)))))
            (assign (invert_direction k)))"
      using True by (subst ZigZagAreaPositioner_scan_axis.simps) simp
    from "1.prems" [unfolded unfold] obtain out1 s1 out23 where
      a: "ZigZagAreaPositioner_scan_axis self (k + 1) s = Inr (out1, s1)"
      and r: "seq (for_in (axis_range (n_steps self) k) (\<lambda>_.
               seq (assign (zigzag_step_axis (step_size self) k))
              (seq (yield snd) (ZigZagAreaPositioner_scan_axis self (k + 1)))))
            (assign (invert_direction k)) s1 = Inr (out23, s')"
      and "out = out1 @ out23"
      by (rule seq_Inr)
    from r obtain out2 s2 out3 where
      b: "for_in (axis_range (n_steps self) k) (\<lambda>_.
               seq (assign (zigzag_step_axis (step_size self) k))
              (seq (yield snd) (ZigZagAreaPositioner_scan_axis self (k + 1)))) s1 = Inr (out2, s2)"
      and c: "assign (invert_direction k) s2 = Inr (out3, s')"
      and "out23 = out2 @ out3"
      by (rule seq_Inr)
    from b obtain xs where "axis_range (n_steps self) k = Inr xs" and
      b': "for_each xs (\<lambda>_.
               seq (assign (zigzag_step_axis (step_size self) k))
              (seq (yield snd) (ZigZagAreaPositioner_scan_axis self (k + 1)))) s1 = Inr (out2, s2)"
      by (rule for_in_Inr)
    have body: "?R u t"
      if "seq (assign (zigzag_step_axis (step_size self) k))
              (seq (yield snd) (ZigZagAreaPositioner_scan_axis self (k + 1))) u = Inr (o', t)"
      for u o' t
    proof -
      from that obtain o1 u1 o23 where
        x: "assign (zigzag_step_axis (step_size self) k) u = Inr (o1, u1)"
        and y: "seq (yield snd) (ZigZagAreaPositioner_scan_axis self (k + 1)) u1 = Inr (o23, t)"
        and "o' = o1 @ o23"
        by (rule seq_Inr)
      from y obtain o2 u2 o3 where
        "yield snd u1 = Inr (o2, u2)"
        "ZigZagAreaPositioner_scan_axis self (k + 1) u2 = Inr (o3, t)"
        "o23 = o2 @ o3"
        by (rule seq_Inr)
      then have yy: "yield snd u1 = Inr (o2, u2)"
        and zz: "ZigZagAreaPositioner_scan_axis self (k + 1) u2 = Inr (o3, t)"
        by simp_all
      from x have "zigzag_step_axis (step_size self) k u = Inr u1"
        by (simp add: assign_Inr)
      then have 1: "fst u1 = fst u" by (rule zigzag_step_axis_directions)
      from yy have 2: "u2 = u1" by (simp add: yield_Inr)
      from zz have "?R u2 t" by (rule inner)
      with 1 2 show ?thesis by simp
    qed
    have "?R s1 s2"
    proof (rule for_each_relates [where R = ?R, OF _ _ _ b'])
      show "?R u u" for u by simp
      show "?R u w" if "?R u v" "?R v w" for u v w using that by simp
      show "?R u v" if "seq (assign (zigzag_step_axis (step_size self) k))
              (seq (yield snd) (ZigZagAreaPositioner_scan_axis self (k + 1))) u = Inr (o', v)"
        for x :: int and u o' v
        using that by (rule body)
    qed
    moreover have "?R s s1" using a by (rule inner)
    moreover from c have "invert_direction k s2 = Inr s'" by (simp add: assign_Inr)
    then have "k < length (fst s2)" "fst s' = (fst s2)[k := - (fst s2 ! k)]"
      by (simp_all add: invert_direction_Inr)
    ultimately show ?thesis by (simp add: nth_list_update)
  qed
qed

text \<open>
  Claim C1 fails on the code: the directions do not last from one pass to the next. On
  one axis with one step and two passes, the first pass ends with the direction \<open>-1\<close>
  (and the position \<open>[1]\<close>); the second pass begins by setting the direction to \<open>1\<close> again
  (and the position to the start), so that it yields what the first pass yielded.
\<close>

theorem ZigZagAreaPositioner_directions_counterexample:
  "AreaPositioner_init [0] [1] [PyInt 1] 2 None
     = Inr \<lparr>offsets = None, passes = 2, end' = [1], start = [0],
            n_steps = Some [PyInt 1], step_size = Some [PyFloat 1], n_axis = Suc 0\<rparr>
   \<and> ZigZagAreaPositioner_pass
        \<lparr>offsets = None, passes = 2, end' = [1], start = [0],
            n_steps = Some [PyInt 1], step_size = Some [PyFloat 1], n_axis = Suc 0\<rparr> ([], [])
     = Inr ([[0], [1]], ([- 1], [1]))
   \<and> ZigZagAreaPositioner_begin_pass
        \<lparr>offsets = None, passes = 2, end' = [1], start = [0],
            n_steps = Some [PyInt 1], step_size = Some [PyFloat 1], n_axis = Suc 0\<rparr> ([- 1], [1])
     = Inr ([], ([1], [0]))
   \<and> ZigZagAreaPositioner_get_generator
        \<lparr>offsets = None, passes = 2, end' = [1], start = [0],
            n_steps = Some [PyInt 1], step_size = Some [PyFloat 1], n_axis = Suc 0\<rparr>
     = Inr [[0], [1], [0], [1]]"
proof -
  let ?self = "\<lparr>offsets = None, passes = 2, end' = [1], start = [0],
            n_steps = Some [PyInt 1], step_size = Some [PyFloat 1], n_axis = Suc 0\<rparr> :: AreaPositioner"
  have i: "AreaPositioner_init [0] [1] [PyInt 1] 2 None = Inr ?self"
    by (simp add: AreaPositioner_init_def add_offsets_def py_div_def)
  have r: "py_range 0 1 1 = [0]" "py_range 0 2 1 = [0, 1]"
    by (simp_all add: py_range_def upt_conv_Cons)
  have b: "ZigZagAreaPositioner_begin_pass ?self s = Inr ([], ([1], [0]))" for s
    by (simp add: ZigZagAreaPositioner_begin_pass_def assign_def)
  have s: "ZigZagAreaPositioner_scan_axis ?self 0 ([1], [0]) = Inr ([[1]], ([- 1], [1]))"
    by (simp add: ZigZagAreaPositioner_scan_axis.simps skip_def seq_def assign_def yield_def
        for_in_def axis_range_def attribute_def item_def zigzag_step_axis_def
        invert_direction_def r)
  have p: "ZigZagAreaPositioner_pass ?self s = Inr ([[0], [1]], ([- 1], [1]))" for s
    by (simp add: ZigZagAreaPositioner_pass_def seq_def yield_def b s)
  have g: "ZigZagAreaPositioner_get_generator ?self = Inr [[0], [1], [0], [1]]"
    by (simp add: ZigZagAreaPositioner_get_generator_def ZigZagAreaPositioner_body_def
        run_def for_in_def seq_def r p)
  from i p b g show ?thesis by simp
qed

text \<open>
  Claim C1, as amended. Within a pass, the direction of an axis is inverted every time
  a run of \<open>scan_axis\<close> on that axis ends (the loop over its \<open>n_steps\<close> steps being done),
  and such a run leaves the directions of the axes before it. The directions do not last
  from one pass to the next: every pass begins by setting the direction of every axis to
  \<open>1\<close> and the position to the start, whatever the pass before left, so that a pass
  does the same from any state.
\<close>

theorem ZigZagAreaPositioner_directions:
  "(\<forall>self s. ZigZagAreaPositioner_begin_pass self s
        = Inr ([], (replicate (n_axis self) 1, start self)))
   \<and> (\<forall>self s t. ZigZagAreaPositioner_pass self s = ZigZagAreaPositioner_pass self t)
   \<and> (\<forall>self k s out s'.
        k < n_axis self \<and> ZigZagAreaPositioner_scan_axis self k s = Inr (out, s') \<longrightarrow>
        length (fst s') = length (fst s)
        \<and> fst s' ! k = - (fst s ! k)
        \<and> (\<forall>j<k. fst s' ! j = fst s ! j))"
proof (intro conjI allI impI)
  fix self :: AreaPositioner and s t :: "int list \<times> real list"
  show b: "ZigZagAreaPositioner_begin_pass self s
        = Inr ([], (replicate (n_axis self) 1, start self))" for s
    by (simp add: ZigZagAreaPositioner_begin_pass_def assign_def)
  show "ZigZagAreaPositioner_pass self s = ZigZagAreaPositioner_pass self t"
    by (simp add: ZigZagAreaPositioner_pass_def seq_def b)
next
  fix self :: AreaPositioner and k s out s'
  assume "k < n_axis self \<and> ZigZagAreaPositioner_scan_axis self k s = Inr (out, s')"
  then have k: "k < n_axis self"
    and r: "ZigZagAreaPositioner_scan_axis self k s = Inr (out, s')" by simp_all
  from zigzag_scan_directions [OF r] k
  show "length (fst s') = length (fst s)" "fst s' ! k = - (fst s ! k)"
    by simp_all
  fix j assume "j < k"
  with zigzag_scan_directions [OF r] show "fst s' ! j = fst s ! j" by simp
qed

theorem ZigZagAreaPositioner_directions_witness:
  "ZigZagAreaPositioner_scan_axis
      \<lparr>offsets = None, passes = 2, end' = [1, 2], start = [0, 0],
        n_steps = Some [PyInt 1, PyInt 2], step_size = Some [PyFloat 1, PyFloat 1], n_axis = 2\<rparr>
      0 ([1, 1], [0, 0])
    = Inr ([[0, 1], [0, 2], [1, 2], [1, 1], [1, 0]], ([- 1, 1], [1, 0]))
   \<and> [- 1, 1 :: int] ! 0 = - ([1, 1] ! 0)
   \<and> ZigZagAreaPositioner_scan_axis
      \<lparr>offsets = None, passes = 2, end' = [1, 2], start = [0, 0],
        n_steps = Some [PyInt 1, PyInt 2], step_size = Some [PyFloat 1, PyFloat 1], n_axis = 2\<rparr>
      1 ([1, 1], [0, 0])
    = Inr ([[0, 1], [0, 2]], ([1, - 1], [0, 2]))
   \<and> [1, - 1 :: int] ! 1 = - ([1, 1] ! 1) \<and> [1, - 1 :: int] ! 0 = [1, 1] ! 0"
proof -
  let ?self = "\<lparr>offsets = None, passes = 2, end' = [1, 2], start = [0, 0],
        n_steps = Some [PyInt 1, PyInt 2], step_size = Some [PyFloat 1, PyFloat 1], n_axis = 2\<rparr>
        :: AreaPositioner"
  have r: "py_range 0 1 1 = [0]" "py_range 0 2 1 = [0, 1]"
    by (simp_all add: py_range_def upt_conv_Cons)
  have e0: "ZigZagAreaPositioner_scan_axis ?self 0 ([1, 1], [0, 0])
      = Inr ([[0, 1], [0, 2], [1, 2], [1, 1], [1, 0]], ([- 1, 1], [1, 0]))"
    by (simp add: ZigZagAreaPositioner_scan_axis.simps skip_def seq_def assign_def yield_def
        for_in_def axis_range_def attribute_def item_def zigzag_step_axis_def
        invert_direction_def r)
  have e1': "ZigZagAreaPositioner_scan_axis ?self 1 ([1, 1], [0, 0])
      = Inr ([[0, 1], [0, 2]], ([1, - 1], [0, 2]))"
    by (simp add: ZigZagAreaPositioner_scan_axis.simps skip_def seq_def assign_def yield_def
        for_in_def axis_range_def attribute_def item_def zigzag_step_axis_def
        invert_direction_def r)
  from ZigZagAreaPositioner_directions [THEN conjunct2, THEN conjunct2, rule_format,
      of 0 ?self "([1, 1], [0, 0])", OF conjI [OF _ e0]]
  have "fst ([- 1, 1 :: int], [1, 0 :: real]) ! 0 = - (fst ([1, 1 :: int], [0, 0 :: real]) ! 0)"
    by simp
  moreover
  from ZigZagAreaPositioner_directions [THEN conjunct2, THEN conjunct2, rule_format,
      of 1 ?self "([1, 1], [0, 0])", OF conjI [OF _ e1']]
  have "fst ([1, - 1 :: int], [0, 2 :: real]) ! 1 = - (fst ([1, 1 :: int], [0, 0 :: real]) ! 1)
      \<and> fst ([1, - 1 :: int], [0, 2 :: real]) ! 0 = fst ([1, 1 :: int], [0, 0 :: real]) ! 0"
    by simp
  ultimately show ?thesis using e0 e1' by simp
qed

section \<open>Traversals and their restart\<close>
































end
